theory Spec2Isabelle
  imports Complex_Main "HOL-Library.AList"
begin

section \<open>Go values and the library functions the bridge calls\<close>

text \<open>
  The bridge passes SNMP values around as Go \<^verbatim>\<open>interface{}\<close>. A value of that type is
  a dynamic type tag with a payload; the constructors below are the dynamic types the
  code inspects (\<^verbatim>\<open>nil\<close>, \<^verbatim>\<open>int\<close>, \<^verbatim>\<open>int64\<close>, \<^verbatim>\<open>uint\<close>, \<^verbatim>\<open>uint64\<close>,
  \<^verbatim>\<open>float64\<close>, \<^verbatim>\<open>string\<close>, \<^verbatim>\<open>[]byte\<close>) and \<^verbatim>\<open>uint32\<close> as one further numeric type
  that no type switch of the code names. A \<^verbatim>\<open>float64\<close> is modelled by a real number:
  the rounding error of IEEE arithmetic, NaN and the infinities are outside the model.
  Strings are byte strings, as in Go.
\<close>

datatype go_value =
    GoNil
  | GoInt int
  | GoInt64 int
  | GoUint nat
  | GoUint64 nat
  | GoUint32 nat
  | GoFloat64 real
  | GoString string
  | GoBytes string

text \<open>A run-time panic of the Go program is a value of the model.\<close>

datatype panic = IndexOutOfRange | TypeAssertion

type_synonym 'a result = "panic + 'a"

subsection \<open>\<^verbatim>\<open>strings\<close>\<close>

text \<open>\<^verbatim>\<open>strings.Index(s, sep)\<close>: the position of the first occurrence of \<open>sep\<close>.\<close>

fun Index :: "string \<Rightarrow> string \<Rightarrow> nat option" where
  "Index [] sep = (if sep = [] then Some 0 else None)"
| "Index (c # cs) sep =
     (if take (length sep) (c # cs) = sep then Some 0
      else map_option Suc (Index cs sep))"

lemma Index_bound: "Index s sep = Some m \<Longrightarrow> m + length sep \<le> length s"
proof (induction s arbitrary: m)
  case Nil
  then show ?case by (simp split: if_splits)
next
  case (Cons c cs)
  show ?case
  proof (cases "take (length sep) (c # cs) = sep")
    case True
    have "length (take (length sep) (c # cs)) \<le> length (c # cs)"
      by (simp only: length_take min.cobounded2)
    with True have "length sep \<le> length (c # cs)"
      by (simp only:)
    with True Cons.prems show ?thesis by simp
  next
    case False
    with Cons.prems obtain k where "Index cs sep = Some k" "m = Suc k"
      by auto
    with Cons.IH show ?thesis by simp
  qed
qed

text \<open>
  \<^verbatim>\<open>strings.Split(s, sep)\<close> as \<^verbatim>\<open>genSplit\<close> computes it: cut at the first occurrence of
  \<open>sep\<close>, continue behind it, and end with the rest. With an empty separator Go
  explodes the string into its characters (bytes here); the bridge never passes one.
\<close>

function Split :: "string \<Rightarrow> string \<Rightarrow> string list" where
  "Split s sep =
     (if sep = [] then map (\<lambda>c. [c]) s
      else case Index s sep of
             None \<Rightarrow> [s]
           | Some m \<Rightarrow> take m s # Split (drop (m + length sep) s) sep)"
  by pat_completeness auto
termination
proof (relation "measure (\<lambda>(s, sep). length s)")
  show "wf (measure (\<lambda>(s, sep). length s))" by simp
next
  fix s sep :: string and m :: nat
  assume "sep \<noteq> []" and "Index s sep = Some m"
  then have "m + length sep \<le> length s" and "length sep \<noteq> 0"
    by (simp_all add: Index_bound)
  then have "length s - (m + length sep) < length s"
    by arith
  then show "((drop (m + length sep) s, sep), (s, sep)) \<in> measure (\<lambda>(s, sep). length s)"
    by simp
qed

declare Split.simps [simp del]


text \<open>
  \<^verbatim>\<open>strings.TrimSpace\<close>, for the white space of ASCII (tab, line feed, vertical tab,
  form feed, carriage return, space). Go also trims the white space of Unicode beyond
  ASCII, which is encoded in several bytes.
\<close>

definition isSpace :: "char \<Rightarrow> bool" where
  "isSpace c = (c \<in> {CHR 0x09, CHR 0x0A, CHR 0x0B, CHR 0x0C, CHR 0x0D, CHR '' ''})"

definition TrimSpace :: "string \<Rightarrow> string" where
  "TrimSpace s = rev (dropWhile isSpace (rev (dropWhile isSpace s)))"




subsection \<open>\<^verbatim>\<open>fmt\<close>\<close>

definition isDigit :: "char \<Rightarrow> bool" where
  "isDigit c = (c \<in> set ''0123456789'')"

definition digitVal :: "char \<Rightarrow> int" where
  "digitVal c = int (of_char c) - 48"

definition decimalValue :: "string \<Rightarrow> int" where
  "decimalValue ds = foldl (\<lambda>acc c. 10 * acc + digitVal c) 0 ds"

text \<open>
  \<^verbatim>\<open>fmt.Sscanf(s, "%d", &v)\<close> into an \<^verbatim>\<open>int\<close> (64 bits): an optional sign, then the
  longest run of decimal digits, which must not be empty; whatever follows is left
  unread and is no error; a number outside the 64-bit range is an error. \<open>None\<close> is
  the error, \<open>Some v\<close> the value stored. The bridge calls it on trimmed strings only,
  so the leading white space that the scanner would skip is not modelled.
\<close>

definition Sscanf_d :: "string \<Rightarrow> int option" where
  "Sscanf_d s =
     (let negative = (case s of [] \<Rightarrow> False | c # _ \<Rightarrow> c = CHR ''-'');
          body = (case s of [] \<Rightarrow> []
                  | c # cs \<Rightarrow> if c = CHR ''+'' \<or> c = CHR ''-'' then cs else s);
          tok = takeWhile isDigit body;
          i = (if negative then - decimalValue tok else decimalValue tok)
      in if tok = [] then None
         else if i < - (2 ^ 63) \<or> 2 ^ 63 \<le> i then None
         else Some i)"

text \<open>\<^verbatim>\<open>fmt.Sprintf("%d", n)\<close>.\<close>

definition digitChar :: "nat \<Rightarrow> char" where
  "digitChar d = ''0123456789'' ! (d mod 10)"

function natDigits :: "nat \<Rightarrow> string" where
  "natDigits n =
     (if n < 10 then [digitChar n] else natDigits (n div 10) @ [digitChar (n mod 10)])"
  by pat_completeness auto
termination
  by (relation "measure (\<lambda>n. n)") auto

declare natDigits.simps [simp del]

definition Sprintf_d :: "int \<Rightarrow> string" where
  "Sprintf_d n = (if n < 0 then CHR ''-'' # natDigits (nat (- n)) else natDigits (nat n))"

subsection \<open>\<^verbatim>\<open>math\<close>\<close>

text \<open>\<^verbatim>\<open>math.Round\<close>: to the nearest integer, halves away from zero.\<close>

definition Round :: "real \<Rightarrow> real" where
  "Round x = (if 0 \<le> x then of_int \<lfloor>x + 1 / 2\<rfloor> else of_int \<lceil>x - 1 / 2\<rceil>)"

section \<open>Profiles (\<^verbatim>\<open>internal/domain\<close>)\<close>

text \<open>\<^verbatim>\<open>OIDType\<close> and \<^verbatim>\<open>HAComponent\<close> are string types with named constants.\<close>

type_synonym OIDType = string
type_synonym HAComponent = string

definition OIDTypeEnum :: OIDType where "OIDTypeEnum = ''enum''"
definition OIDTypeCompositeSwitch :: OIDType where "OIDTypeCompositeSwitch = ''composite_switch''"
definition OIDTypeInteger :: OIDType where "OIDTypeInteger = ''integer''"

definition HAComponentSensor :: HAComponent where "HAComponentSensor = ''sensor''"
definition HAComponentSwitch :: HAComponent where "HAComponentSwitch = ''switch''"
definition HAComponentSelect :: HAComponent where "HAComponentSelect = ''select''"
definition HAComponentNumber :: HAComponent where "HAComponentNumber = ''number''"

text \<open>
  \<^verbatim>\<open>OIDMapping\<close>, with the fields the poller, the discovery and the command path read.
  \<open>EnumValues\<close> is a Go map from \<^verbatim>\<open>int\<close> to \<^verbatim>\<open>string\<close>, \<open>None\<close> when it is \<^verbatim>\<open>nil\<close>: an
  association list with one entry per key, looked up with \<open>map_of\<close>; the order of the
  list is the order in which a \<^verbatim>\<open>range\<close> over the map yields the entries, which Go
  leaves unspecified.
\<close>

record OIDMapping =
  OID :: string
  Name :: string
  Type :: OIDType
  Scale :: real
  HAComponent :: HAComponent
  EnumValues :: "(int \<times> string) list option"
  Writable :: bool
  WriteOID :: string
  PollGroup :: string
  CompositeIndex :: int
  CompositeSeparator :: string

section \<open>The profile transformer (\<^verbatim>\<open>internal/service/poller.go\<close>)\<close>

text \<open>
  \<^verbatim>\<open>extractCompositeValue\<close>. The index is a Go \<^verbatim>\<open>int\<close>: the guard compares it with the
  number of parts only from above, so a negative index reaches \<^verbatim>\<open>parts[index]\<close> and
  panics.
\<close>

definition extractCompositeValue :: "go_value \<Rightarrow> OIDMapping \<Rightarrow> go_value result" where
  "extractCompositeValue v mapping =
     (case v of
        GoString strValue \<Rightarrow>
          (let separator = (if CompositeSeparator mapping = [] then '','' else CompositeSeparator mapping);
               parts = Split strValue separator
           in if CompositeIndex mapping \<ge> int (length parts) then Inr GoNil
              else if CompositeIndex mapping < 0 then Inl IndexOutOfRange
              else
                (let partValue = TrimSpace (parts ! nat (CompositeIndex mapping))
                 in case Sscanf_d partValue of
                      Some intVal \<Rightarrow>
                        (case EnumValues mapping of
                           Some ev \<Rightarrow>
                             (case map_of ev intVal of
                                Some name \<Rightarrow> Inr (GoString name)
                              | None \<Rightarrow> Inr (GoInt intVal))
                         | None \<Rightarrow> Inr (GoInt intVal))
                    | None \<Rightarrow> Inr (GoString partValue)))
      | _ \<Rightarrow> Inr v)"

text \<open>
  \<^verbatim>\<open>transformValue\<close>. \<open>ParseFloat\<close> stands for \<^verbatim>\<open>strconv.ParseFloat(v, 64)\<close>, \<open>None\<close> when it
  returns an error: the function is a parameter, since the syntax it accepts
  (exponents, hexadecimal floats, infinities) is the library's.
\<close>

definition transformValue ::
  "(string \<Rightarrow> real option) \<Rightarrow> go_value \<Rightarrow> OIDMapping \<Rightarrow> go_value result" where
  "transformValue ParseFloat v mapping =
     (if Type mapping = OIDTypeCompositeSwitch then extractCompositeValue v mapping
      else
        (let (numericValue, hasNumeric) =
               (if Scale mapping \<noteq> 0 then
                  (case v of
                     GoInt n \<Rightarrow> (real_of_int n, True)
                   | GoInt64 n \<Rightarrow> (real_of_int n, True)
                   | GoUint n \<Rightarrow> (real n, True)
                   | GoUint64 n \<Rightarrow> (real n, True)
                   | GoFloat64 x \<Rightarrow> (x, True)
                   | GoString s \<Rightarrow>
                       (case ParseFloat s of Some parsed \<Rightarrow> (parsed, True) | None \<Rightarrow> (0, False))
                   | _ \<Rightarrow> (0, False))
                else (0, False))
         in if hasNumeric then
              (let scaled = numericValue * Scale mapping
               in if Scale mapping < 0.01 then Inr (GoFloat64 (Round (scaled * 1000) / 1000))
                  else Inr (GoFloat64 (Round (scaled * 100) / 100)))
            else if Type mapping = OIDTypeEnum \<and> EnumValues mapping \<noteq> None then
              (case v of
                 GoInt n \<Rightarrow>
                   (case map_of (the (EnumValues mapping)) n of
                      Some name \<Rightarrow> Inr (GoString name)
                    | None \<Rightarrow> Inr v)
               | GoInt64 n \<Rightarrow>
                   (case map_of (the (EnumValues mapping)) n of
                      Some name \<Rightarrow> Inr (GoString name)
                    | None \<Rightarrow> Inr v)
               | _ \<Rightarrow> Inr v)
            else Inr v))"




text \<open>
  A reading of decimal literals (sign, digits, at most one point, no exponent), on which
  \<^verbatim>\<open>strconv.ParseFloat\<close> agrees; it instantiates the parameter \<open>ParseFloat\<close> in the
  examples.
\<close>

definition parseDecimal :: "string \<Rightarrow> real option" where
  "parseDecimal s =
     (let negative = (case s of [] \<Rightarrow> False | c # _ \<Rightarrow> c = CHR ''-'');
          body = (case s of [] \<Rightarrow> []
                  | c # cs \<Rightarrow> if c = CHR ''+'' \<or> c = CHR ''-'' then cs else s);
          intDigits = takeWhile isDigit body;
          rest = dropWhile isDigit body;
          withSign = (\<lambda>x::real. if negative then - x else x)
      in case rest of
           [] \<Rightarrow> if intDigits = [] then None else Some (withSign (of_int (decimalValue intDigits)))
         | c # fracDigits \<Rightarrow>
             if c = CHR ''.'' \<and> list_all isDigit fracDigits \<and> (intDigits \<noteq> [] \<or> fracDigits \<noteq> [])
             then Some (withSign (of_int (decimalValue intDigits)
                                 + of_int (decimalValue fracDigits) / 10 ^ length fracDigits))
             else None)"

text \<open>
  The outlet mappings of an Energenie-style PDU: mappings of type \<^verbatim>\<open>composite_switch\<close>
  that share one OID and differ in the index.
\<close>

definition outletMapping :: "string \<Rightarrow> int \<Rightarrow> OIDMapping" where
  "outletMapping name idx =
     \<lparr>OID = ''1.3.6.1.4.1.17420.1.2.9.1.13.0'', Name = name, Type = OIDTypeCompositeSwitch,
      Scale = 0, HAComponent = HAComponentSwitch,
      EnumValues = Some [(0, ''Off''), (1, ''On'')], Writable = True, WriteOID = [],
      PollGroup = [], CompositeIndex = idx, CompositeSeparator = '',''\<rparr>"


definition voltageMapping :: OIDMapping where
  "voltageMapping =
     \<lparr>OID = ''1.3.6.1.2.1.33.1.2.1.0'', Name = ''Battery Voltage'', Type = OIDTypeInteger,
      Scale = 0.1, HAComponent = HAComponentSensor, EnumValues = None, Writable = False,
      WriteOID = [], PollGroup = [], CompositeIndex = 0, CompositeSeparator = []\<rparr>"

section \<open>The trap receiver (\<^verbatim>\<open>internal/worker/trap_receiver.go\<close>)\<close>

text \<open>A variable binding as \<^verbatim>\<open>gosnmp\<close> delivers it: name, type tag, value.\<close>

datatype Asn1BER =
    Integer | OctetString | Null | ObjectIdentifier | IPAddress | Counter32 | Gauge32
  | TimeTicks | Counter64 | Uinteger32 | NoSuchObject | NoSuchInstance | EndOfMibView
  | OtherBER

record SnmpPDU =
  pdu_Name :: string
  pdu_Type :: Asn1BER
  pdu_Value :: go_value

type_synonym TrapSeverity = string

definition SeverityInfo :: TrapSeverity where "SeverityInfo = ''info''"
definition SeverityWarning :: TrapSeverity where "SeverityWarning = ''warning''"
definition SeverityError :: TrapSeverity where "SeverityError = ''error''"
definition SeverityCritical :: TrapSeverity where "SeverityCritical = ''critical''"

text \<open>\<^verbatim>\<open>TrapVariables\<close> is a Go map: an association list with one entry per name.\<close>

type_synonym TrapVariables = "(string \<times> go_value) list"

text \<open>
  \<^verbatim>\<open>TrapLog\<close> without the random identifier and the time of receipt.
\<close>

record TrapLog =
  tl_DeviceID :: "string option"
  tl_SourceIP :: string
  tl_TrapOID :: string
  tl_Variables :: TrapVariables
  tl_Severity :: TrapSeverity
  tl_Message :: string

text \<open>
  \<^verbatim>\<open>Device\<close>, with the fields the poller and the trap receiver read. \<^verbatim>\<open>SNMPVersion\<close> is a
  string type.
\<close>

record Device =
  dev_ID :: string
  dev_Name :: string
  dev_IPAddress :: string
  dev_SNMPVersion :: string
  dev_ProfileID :: string
  dev_Enabled :: bool

definition SNMPv1 :: string where "SNMPv1 = ''v1''"
definition SNMPv2c :: string where "SNMPv2c = ''v2c''"
definition SNMPv3 :: string where "SNMPv3 = ''v3''"

text \<open>
  \<^verbatim>\<open>parseVariable\<close>. \<open>Sprint\<close> stands for \<^verbatim>\<open>fmt.Sprintf("%v", v)\<close>. A failed type assertion
  panics.
\<close>

definition parseVariable :: "(go_value \<Rightarrow> string) \<Rightarrow> SnmpPDU \<Rightarrow> go_value result" where
  "parseVariable Sprint variable =
     (case pdu_Type variable of
        OctetString \<Rightarrow>
          (case pdu_Value variable of GoBytes b \<Rightarrow> Inr (GoString b) | _ \<Rightarrow> Inl TypeAssertion)
      | Integer \<Rightarrow> Inr (pdu_Value variable)
      | Counter32 \<Rightarrow> Inr (pdu_Value variable)
      | Counter64 \<Rightarrow> Inr (pdu_Value variable)
      | Gauge32 \<Rightarrow> Inr (pdu_Value variable)
      | TimeTicks \<Rightarrow> Inr (pdu_Value variable)
      | Uinteger32 \<Rightarrow> Inr (pdu_Value variable)
      | ObjectIdentifier \<Rightarrow>
          (case pdu_Value variable of GoString oid \<Rightarrow> Inr (GoString oid) | _ \<Rightarrow> Inl TypeAssertion)
      | IPAddress \<Rightarrow>
          (case pdu_Value variable of
             GoString ip \<Rightarrow> Inr (GoString ip)
           | _ \<Rightarrow> Inr (GoString (Sprint (pdu_Value variable))))
      | _ \<Rightarrow> Inr (GoString (Sprint (pdu_Value variable))))"

definition criticalPatterns :: "string list" where
  "criticalPatterns = [''.1.3.6.1.4.1.318.2.3.1'', ''.1.3.6.1.4.1.318.2.3.5'']"

definition warningPatterns :: "string list" where
  "warningPatterns = [''.1.3.6.1.4.1.318.2.3.2'', ''.1.3.6.1.4.1.318.2.3.4'']"

text \<open>\<^verbatim>\<open>determineSeverity\<close>: each loop returns at the first pattern equal to the trap OID.\<close>

definition determineSeverity :: "string \<Rightarrow> TrapVariables \<Rightarrow> TrapSeverity" where
  "determineSeverity trapOID variables =
     (if list_ex (\<lambda>pattern. trapOID = pattern) criticalPatterns then SeverityCritical
      else if list_ex (\<lambda>pattern. trapOID = pattern) warningPatterns then SeverityWarning
      else SeverityInfo)"

text \<open>\<^verbatim>\<open>formatMessage\<close>.\<close>

definition formatMessage :: "string \<Rightarrow> TrapVariables \<Rightarrow> string" where
  "formatMessage trapOID variables =
     (if trapOID = ''.1.3.6.1.4.1.318.2.3.1'' then ''UPS on battery power''
      else if trapOID = ''.1.3.6.1.4.1.318.2.3.2'' then ''UPS returned to utility power''
      else if trapOID = ''.1.3.6.1.4.1.318.2.3.5'' then ''UPS battery low''
      else if trapOID = ''.1.3.6.1.4.1.318.2.3.4'' then ''Communication lost with UPS''
      else if length variables > 0 then
        ''Trap '' @ trapOID @ '' with '' @ Sprintf_d (int (length variables)) @ '' variables''
      else ''Trap '' @ trapOID)"

text \<open>
  The loop of \<^verbatim>\<open>handleTrap\<close> over the bindings of the packet: the binding named
  \<^verbatim>\<open>snmpTrapOID.0\<close> gives the trap OID when its value is a string, every other binding is
  stored under its name.
\<close>

fun trapBindings ::
  "(go_value \<Rightarrow> string) \<Rightarrow> SnmpPDU list \<Rightarrow> string \<times> TrapVariables
     \<Rightarrow> (string \<times> TrapVariables) result" where
  "trapBindings Sprint [] acc = Inr acc"
| "trapBindings Sprint (variable # rest) (trapOID, variables) =
     (case parseVariable Sprint variable of
        Inl p \<Rightarrow> Inl p
      | Inr v \<Rightarrow>
          if pdu_Name variable = ''.1.3.6.1.6.3.1.1.4.1.0'' then
            (case v of
               GoString oid \<Rightarrow> trapBindings Sprint rest (oid, variables)
             | _ \<Rightarrow> trapBindings Sprint rest (trapOID, variables))
          else trapBindings Sprint rest (trapOID, AList.update (pdu_Name variable) v variables))"

text \<open>
  \<^verbatim>\<open>handleTrap\<close> up to the trap log it constructs. \<open>devices\<close> is what the device repository
  returns, \<open>None\<close> when it fails.
\<close>

definition handleTrap ::
  "(go_value \<Rightarrow> string) \<Rightarrow> Device list option \<Rightarrow> string \<Rightarrow> SnmpPDU list \<Rightarrow> TrapLog result" where
  "handleTrap Sprint devices sourceIP packetVariables =
     (let deviceID =
            (case devices of
               None \<Rightarrow> None
             | Some ds \<Rightarrow> map_option dev_ID (find (\<lambda>d. dev_IPAddress d = sourceIP) ds))
      in case trapBindings Sprint packetVariables ([], []) of
           Inl p \<Rightarrow> Inl p
         | Inr (trapOID, variables) \<Rightarrow>
             Inr \<lparr>tl_DeviceID = deviceID, tl_SourceIP = sourceIP, tl_TrapOID = trapOID,
                  tl_Variables = variables,
                  tl_Severity = determineSeverity trapOID variables,
                  tl_Message = formatMessage trapOID variables\<rparr>)"

text \<open>
  The lookup table of messages and the fallback the specification gives for a trap OID
  that the table does not hold.
\<close>

definition trapMessages :: "(string \<times> string) list" where
  "trapMessages =
     [(''.1.3.6.1.4.1.318.2.3.1'', ''UPS on battery power''),
      (''.1.3.6.1.4.1.318.2.3.2'', ''UPS returned to utility power''),
      (''.1.3.6.1.4.1.318.2.3.5'', ''UPS battery low''),
      (''.1.3.6.1.4.1.318.2.3.4'', ''Communication lost with UPS'')]"

definition trapFallback :: "string \<Rightarrow> nat \<Rightarrow> string" where
  "trapFallback oid n = ''Trap '' @ oid @ '' with '' @ Sprintf_d (int n) @ '' variables''"

text \<open>A formatting of values for the examples: strings as they are.\<close>

definition sprintExample :: "go_value \<Rightarrow> string" where
  "sprintExample v = (case v of GoString s \<Rightarrow> s | GoNil \<Rightarrow> ''<nil>'' | _ \<Rightarrow> ''?'')"

section \<open>Discovery (\<^verbatim>\<open>internal/mqtt\<close>, \<^verbatim>\<open>PublishDevice\<close>)\<close>

text \<open>
  The options of a select entity. The first loop runs \<open>i\<close> from \<open>1\<close> to the number of
  entries and appends the string under key \<open>i\<close> when there is one; the second ranges
  over the map, in the order of the association list, and appends every string that the
  options do not hold yet.
\<close>

definition selectOptions :: "(int \<times> string) list \<Rightarrow> string list" where
  "selectOptions ev =
     (let options = List.map_filter (map_of ev) [1 .. int (length ev)]
      in foldl (\<lambda>options (k, v). if list_ex (\<lambda>opt. opt = v) options then options
                                 else options @ [v])
               options ev)"

text \<open>
  \<^verbatim>\<open>config.Options\<close> as the component switch of \<^verbatim>\<open>PublishDevice\<close> sets it: \<open>None\<close> when it
  stays \<^verbatim>\<open>nil\<close>.
\<close>

definition discoveryOptions :: "OIDMapping \<Rightarrow> string list option" where
  "discoveryOptions mapping =
     (if HAComponent mapping = HAComponentSelect then
        (case EnumValues mapping of
           Some ev \<Rightarrow> Some (selectOptions ev)
         | None \<Rightarrow> None)
      else None)"

section \<open>Commands (\<^verbatim>\<open>internal/mqtt\<close>, the publisher)\<close>








section \<open>The device poller (\<^verbatim>\<open>internal/service/poller.go\<close>)\<close>

record Profile =
  prof_ID :: string
  OIDMappings :: "OIDMapping list"

text \<open>
  \<^verbatim>\<open>DeviceState\<close> and \<^verbatim>\<open>StateUpdateEvent\<close>; a Go map from strings to values is a partial
  function. The wall-clock fields (\<^verbatim>\<open>LastPoll\<close>, \<^verbatim>\<open>Timestamp\<close>) are left out.
\<close>

record DeviceState =
  st_DeviceID :: string
  st_Online :: bool
  st_Values :: "string \<rightharpoonup> go_value"
  st_Errors :: "string list"

record StateUpdateEvent =
  ev_DeviceID :: string
  ev_Values :: "string \<rightharpoonup> go_value"
  ev_Online :: bool

text \<open>
  \<^verbatim>\<open>PollerService\<close>. A \<^verbatim>\<open>devicePoller\<close> object is known by a number, its address; \<open>devices\<close>
  maps a device id to the poller registered for it, \<open>closedStops\<close> holds the pollers
  whose stop channel has been closed. Each subscriber is the content of its channel, of
  capacity 100.
\<close>

record PollerService =
  devices :: "string \<rightharpoonup> nat"
  nextPoller :: nat
  closedStops :: "nat set"
  states :: "string \<rightharpoonup> DeviceState"
  subscribers :: "StateUpdateEvent list list"

text \<open>
  The fields of a \<^verbatim>\<open>devicePoller\<close> that only its own goroutine reads and writes.
  \<open>dp_connected\<close> says that the client exists and its connection is not \<^verbatim>\<open>nil\<close>.
\<close>

record devicePoller =
  dp_number :: nat
  dp_device :: Device
  dp_profile :: "Profile option"
  dp_connected :: bool
  dp_pollCount :: nat
  dp_missingOIDs :: "string set"

datatype SnmpVersion = Version1 | Version2c | Version3

definition snmpVersionToGoSNMP :: "string \<Rightarrow> SnmpVersion" where
  "snmpVersionToGoSNMP v =
     (if v = SNMPv1 then Version1 else if v = SNMPv3 then Version3 else Version2c)"

text \<open>
  What the poller calls outside the program, as parameters. \<open>'w\<close> is the state of the
  world the SNMP client talks to (sockets, network, agent). \<open>env_Connect\<close> returns the
  error message of a failed \<^verbatim>\<open>Connect\<close>; \<open>env_Get\<close> returns the error message of a
  failed \<^verbatim>\<open>Get\<close> or the bindings of the response; \<open>env_Sscanf_f\<close> is
  \<^verbatim>\<open>fmt.Sscanf(s, "%f", &f)\<close>; \<open>env_rangeOrder\<close> is the order in which a \<^verbatim>\<open>range\<close> yields
  the keys of a Go map, given in the order of their insertion.
\<close>

record 'w env =
  env_Connect :: "'w \<Rightarrow> string option \<times> 'w"
  env_Get :: "'w \<Rightarrow> string list \<Rightarrow> (string + SnmpPDU list) \<times> 'w"
  env_Close :: "'w \<Rightarrow> 'w"
  env_ParseFloat :: "string \<Rightarrow> real option"
  env_Sscanf_f :: "string \<Rightarrow> real option"
  env_rangeOrder :: "string list \<Rightarrow> string list"

text \<open>\<^verbatim>\<open>AddDevice\<close>: the new service and the poller whose goroutine it starts, if any.\<close>

definition AddDevice ::
  "(string \<Rightarrow> Profile option) \<Rightarrow> Device \<Rightarrow> PollerService \<Rightarrow> PollerService \<times> devicePoller option" where
  "AddDevice profileRepo device s =
     (if devices s (dev_ID device) \<noteq> None then (s, None)
      else
        (let profile = (if dev_ProfileID device \<noteq> [] then profileRepo (dev_ProfileID device)
                        else None);
             dp = \<lparr>dp_number = nextPoller s, dp_device = device, dp_profile = profile,
                   dp_connected = False, dp_pollCount = 0, dp_missingOIDs = {}\<rparr>
         in (s\<lparr>devices := (devices s)(dev_ID device \<mapsto> nextPoller s),
               nextPoller := Suc (nextPoller s),
               states := (states s)(dev_ID device \<mapsto>
                  \<lparr>st_DeviceID = dev_ID device, st_Online = False, st_Values = Map.empty,
                   st_Errors = []\<rparr>)\<rparr>,
             Some dp)))"

text \<open>
  \<^verbatim>\<open>RemoveDevice\<close>: closes the stop channel of the registered poller, deletes the poller
  from the table and deletes the state. It returns without waiting for the goroutine.
\<close>

definition RemoveDevice :: "string \<Rightarrow> PollerService \<Rightarrow> PollerService" where
  "RemoveDevice ident s =
     (let s1 = (case devices s ident of
                  Some n \<Rightarrow> s\<lparr>closedStops := insert n (closedStops s),
                              devices := (devices s)(ident := None)\<rparr>
                | None \<Rightarrow> s)
      in s1\<lparr>states := (states s1)(ident := None)\<rparr>)"

text \<open>
  \<^verbatim>\<open>updateState\<close>: the new service and the event sent to the subscribers. \<open>values\<close> is
  \<open>None\<close> for a \<^verbatim>\<open>nil\<close> map. A send to a full channel is skipped.
\<close>

definition updateState ::
  "string \<Rightarrow> (string \<rightharpoonup> go_value) option \<Rightarrow> bool \<Rightarrow> string list \<Rightarrow> PollerService
     \<Rightarrow> PollerService \<times> StateUpdateEvent" where
  "updateState deviceID values online errors s =
     (let state = (case states s deviceID of
                     Some st \<Rightarrow> st
                   | None \<Rightarrow> \<lparr>st_DeviceID = deviceID, st_Online = False,
                               st_Values = Map.empty, st_Errors = []\<rparr>);
          state' = state\<lparr>st_Online := online, st_Errors := errors,
                         st_Values := (case values of
                                         Some vs \<Rightarrow> st_Values state ++ vs
                                       | None \<Rightarrow> st_Values state)\<rparr>;
          event = \<lparr>ev_DeviceID = deviceID, ev_Values = st_Values state', ev_Online = online\<rparr>
      in (s\<lparr>states := (states s)(deviceID \<mapsto> state'),
            subscribers := map (\<lambda>ch. if length ch < 100 then ch @ [event] else ch)
                               (subscribers s)\<rparr>,
          event))"

text \<open>\<^verbatim>\<open>normalizeOID\<close>.\<close>

definition normalizeOID :: "string \<Rightarrow> string" where
  "normalizeOID oid = (case oid of c # rest \<Rightarrow> if c = CHR ''.'' then rest else oid | [] \<Rightarrow> oid)"

text \<open>The interval of the poll group of a mapping, as the loop of \<^verbatim>\<open>getOIDsToPoll\<close> finds it.\<close>

definition pollGroups :: "(string \<times> nat) list" where
  "pollGroups = [(''frequent'', 1), (''static'', 10)]"

definition pollInterval :: "OIDMapping \<Rightarrow> nat" where
  "pollInterval mapping =
     (let group = (if PollGroup mapping = [] then ''frequent'' else PollGroup mapping)
      in case map_of pollGroups group of Some interval \<Rightarrow> interval | None \<Rightarrow> 1)"

text \<open>
  \<^verbatim>\<open>getOIDsToPoll\<close>: the OIDs of the mappings that are due and not known to be missing go
  into a set, and the set is read out with a \<^verbatim>\<open>range\<close>.
\<close>

definition getOIDsToPoll :: "'w env \<Rightarrow> devicePoller \<Rightarrow> string list" where
  "getOIDsToPoll E dp =
     (case dp_profile dp of
        None \<Rightarrow> []
      | Some profile \<Rightarrow>
          env_rangeOrder E
            (remdups (map OID
               (filter (\<lambda>mapping. dp_pollCount dp mod pollInterval mapping = 0
                                   \<and> normalizeOID (OID mapping) \<notin> dp_missingOIDs dp)
                  (OIDMappings profile)))))"

definition baseOIDs :: "string list" where
  "baseOIDs = [''.1.3.6.1.2.1.1.1.0'', ''.1.3.6.1.2.1.1.3.0'']"

text \<open>The list \<^verbatim>\<open>oids\<close> over which \<^verbatim>\<open>doPoll\<close> runs its batch loop.\<close>

definition pollOIDs :: "'w env \<Rightarrow> devicePoller \<Rightarrow> string list" where
  "pollOIDs E dp = (let oids = getOIDsToPoll E dp in if oids = [] then baseOIDs else oids)"

text \<open>
  The index \<^verbatim>\<open>oidToMappings\<close> of \<^verbatim>\<open>doPoll\<close>, read at a normalized OID: the mappings of the
  profile with that OID, in the order of the profile.
\<close>

definition oidToMappings :: "Profile option \<Rightarrow> string \<Rightarrow> OIDMapping list" where
  "oidToMappings profile normalizedOID =
     (case profile of
        None \<Rightarrow> []
      | Some p \<Rightarrow> filter (\<lambda>mapping. normalizeOID (OID mapping) = normalizedOID) (OIDMappings p))"

text \<open>\<^verbatim>\<open>parseValue\<close>.\<close>

definition parseValue :: "SnmpPDU \<Rightarrow> go_value result" where
  "parseValue variable =
     (case pdu_Type variable of
        OctetString \<Rightarrow>
          (case pdu_Value variable of GoBytes b \<Rightarrow> Inr (GoString b) | _ \<Rightarrow> Inl TypeAssertion)
      | ObjectIdentifier \<Rightarrow>
          (case pdu_Value variable of GoString oid \<Rightarrow> Inr (GoString oid) | _ \<Rightarrow> Inl TypeAssertion)
      | NoSuchObject \<Rightarrow> Inr GoNil
      | NoSuchInstance \<Rightarrow> Inr GoNil
      | Null \<Rightarrow> Inr GoNil
      | _ \<Rightarrow> Inr (pdu_Value variable))"

text \<open>
  The state of one poll cycle: the world, whether the connection is open, the maps and
  lists \<^verbatim>\<open>doPoll\<close> builds, the set of missing OIDs of the poller, and two records of what
  happened: the argument of every \<^verbatim>\<open>Get\<close> in the order of the calls, and the bindings
  that reached the point where their value is stored.
\<close>

record 'w poll_state =
  ps_world :: 'w
  ps_connected :: bool
  ps_values :: "string \<rightharpoonup> go_value"
  ps_errors :: "string list"
  ps_missing :: "string set"
  ps_requests :: "string list list"
  ps_stored :: "SnmpPDU list"

text \<open>
  The loop over the mappings of one OID: each writes its transformed value under its
  name.
\<close>

fun applyMappings ::
  "(string \<Rightarrow> real option) \<Rightarrow> go_value \<Rightarrow> OIDMapping list \<Rightarrow> (string \<rightharpoonup> go_value)
     \<Rightarrow> (string \<rightharpoonup> go_value) result" where
  "applyMappings ParseFloat v [] values = Inr values"
| "applyMappings ParseFloat v (mapping # mappings) values =
     (case transformValue ParseFloat v mapping of
        Inl p \<Rightarrow> Inl p
      | Inr transformedValue \<Rightarrow>
          applyMappings ParseFloat v mappings (values(Name mapping \<mapsto> transformedValue)))"

text \<open>
  What both paths of \<^verbatim>\<open>doPoll\<close> do with a binding whose parsed value is not \<^verbatim>\<open>nil\<close>: the
  transformed value under the name of every mapping of the OID, then the raw value
  under the name of the binding.
\<close>

definition storeBinding ::
  "'w env \<Rightarrow> Profile option \<Rightarrow> SnmpPDU \<Rightarrow> go_value \<Rightarrow> 'w poll_state \<Rightarrow> 'w poll_state result" where
  "storeBinding E profile variable v st =
     (case applyMappings (env_ParseFloat E) v
             (oidToMappings profile (normalizeOID (pdu_Name variable))) (ps_values st) of
        Inl p \<Rightarrow> Inl p
      | Inr values \<Rightarrow>
          Inr (st\<lparr>ps_values := values(pdu_Name variable \<mapsto> v),
                  ps_stored := ps_stored st @ [variable]\<rparr>))"

text \<open>The body of the loop over the bindings of a batch that succeeded.\<close>

definition processVariable ::
  "'w env \<Rightarrow> Profile option \<Rightarrow> SnmpPDU \<Rightarrow> 'w poll_state \<Rightarrow> 'w poll_state result" where
  "processVariable E profile variable st =
     (if pdu_Type variable = NoSuchInstance \<or> pdu_Type variable = NoSuchObject then
        Inr (st\<lparr>ps_missing := insert (normalizeOID (pdu_Name variable)) (ps_missing st)\<rparr>)
      else
        (case parseValue variable of
           Inl p \<Rightarrow> Inl p
         | Inr v \<Rightarrow> if v = GoNil then Inr st else storeBinding E profile variable v st))"

fun processVariables ::
  "'w env \<Rightarrow> Profile option \<Rightarrow> SnmpPDU list \<Rightarrow> 'w poll_state \<Rightarrow> 'w poll_state result" where
  "processVariables E profile [] st = Inr st"
| "processVariables E profile (variable # variables) st =
     (case processVariable E profile variable st of
        Inl p \<Rightarrow> Inl p
      | Inr st' \<Rightarrow> processVariables E profile variables st')"

text \<open>The body of the loop over the bindings of a single query of the SNMPv1 fallback.\<close>

definition fallbackVariable ::
  "'w env \<Rightarrow> Profile option \<Rightarrow> SnmpPDU \<Rightarrow> 'w poll_state \<Rightarrow> 'w poll_state result" where
  "fallbackVariable E profile variable st =
     (case parseValue variable of
        Inl p \<Rightarrow> Inl p
      | Inr v \<Rightarrow> if v \<noteq> GoNil then storeBinding E profile variable v st else Inr st)"

fun fallbackVariables ::
  "'w env \<Rightarrow> Profile option \<Rightarrow> SnmpPDU list \<Rightarrow> 'w poll_state \<Rightarrow> 'w poll_state result" where
  "fallbackVariables E profile [] st = Inr st"
| "fallbackVariables E profile (variable # variables) st =
     (case fallbackVariable E profile variable st of
        Inl p \<Rightarrow> Inl p
      | Inr st' \<Rightarrow> fallbackVariables E profile variables st')"

text \<open>The loop of the SNMPv1 fallback over the OIDs of a failed batch.\<close>

fun fallbackSingles ::
  "'w env \<Rightarrow> Profile option \<Rightarrow> string list \<Rightarrow> 'w poll_state \<Rightarrow> 'w poll_state result" where
  "fallbackSingles E profile [] st = Inr st"
| "fallbackSingles E profile (singleOID # rest) st =
     (let (singleResult, w) = env_Get E (ps_world st) [singleOID];
          st1 = st\<lparr>ps_world := w, ps_requests := ps_requests st @ [[singleOID]]\<rparr>
      in case singleResult of
           Inl singleErr \<Rightarrow> fallbackSingles E profile rest st1
         | Inr variables \<Rightarrow>
             (case fallbackVariables E profile variables st1 of
                Inl p \<Rightarrow> Inl p
              | Inr st2 \<Rightarrow> fallbackSingles E profile rest st2))"

text \<open>The body of the batch loop.\<close>

definition pollBatch ::
  "'w env \<Rightarrow> SnmpVersion \<Rightarrow> Profile option \<Rightarrow> string list \<Rightarrow> 'w poll_state \<Rightarrow> 'w poll_state result" where
  "pollBatch E version profile batchOIDs st =
     (let (batchResult, w) = env_Get E (ps_world st) batchOIDs;
          st1 = st\<lparr>ps_world := w, ps_requests := ps_requests st @ [batchOIDs]\<rparr>
      in case batchResult of
           Inl err \<Rightarrow>
             (let closed = st1\<lparr>ps_world := (if ps_connected st1 then env_Close E w else w),
                               ps_connected := False\<rparr>
              in if version = Version1 then
                   (case env_Connect E (ps_world closed) of
                      (Some connErr, w') \<Rightarrow>
                        Inr (closed\<lparr>ps_world := w', ps_errors := ps_errors closed @ [connErr]\<rparr>)
                    | (None, w') \<Rightarrow>
                        fallbackSingles E profile batchOIDs
                          (closed\<lparr>ps_world := w', ps_connected := True\<rparr>))
                 else Inr (closed\<lparr>ps_errors := ps_errors closed @ [err]\<rparr>))
         | Inr variables \<Rightarrow> processVariables E profile variables st1)"

definition batchSizeFor :: "SnmpVersion \<Rightarrow> nat" where
  "batchSizeFor version = (if version = Version1 then 1 else 10)"

lemma batchSizeFor_pos: "0 < batchSizeFor version"
  by (simp add: batchSizeFor_def)

text \<open>The batch loop: \<open>oids\<close> is what is left of the list from position \<open>i\<close> on.\<close>

function pollBatches ::
  "'w env \<Rightarrow> SnmpVersion \<Rightarrow> Profile option \<Rightarrow> string list \<Rightarrow> 'w poll_state \<Rightarrow> 'w poll_state result" where
  "pollBatches E version profile oids st =
     (if oids = [] then Inr st
      else case pollBatch E version profile (take (batchSizeFor version) oids) st of
             Inl p \<Rightarrow> Inl p
           | Inr st' \<Rightarrow> pollBatches E version profile (drop (batchSizeFor version) oids) st')"
  by pat_completeness auto
termination
proof (relation "measure (\<lambda>(E, version, profile, oids, st). length oids)")
  show "wf (measure (\<lambda>(E :: 'w env, version :: SnmpVersion, profile :: Profile option,
                        oids :: string list, st :: 'w poll_state). length oids))"
    by simp
next
  fix E :: "'w env" and version profile and oids :: "string list" and st st' :: "'w poll_state"
  assume "oids \<noteq> []"
  then have "length oids - batchSizeFor version < length oids"
    using batchSizeFor_pos [of version] by (cases oids) auto
  then show "((E, version, profile, drop (batchSizeFor version) oids, st'),
              (E, version, profile, oids, st))
             \<in> measure (\<lambda>(E, version, profile, oids, st). length oids)"
    by simp
qed

declare pollBatches.simps [simp del]

text \<open>\<^verbatim>\<open>toFloat64\<close> and \<^verbatim>\<open>calculateDerivedValues\<close>. Reading a key that a Go map lacks gives \<^verbatim>\<open>nil\<close>.\<close>

definition toFloat64 :: "'w env \<Rightarrow> go_value \<Rightarrow> real" where
  "toFloat64 E v =
     (case v of
        GoNil \<Rightarrow> 0
      | GoFloat64 val \<Rightarrow> val
      | GoInt val \<Rightarrow> real_of_int val
      | GoInt64 val \<Rightarrow> real_of_int val
      | GoString val \<Rightarrow> (case env_Sscanf_f E val of Some f \<Rightarrow> f | None \<Rightarrow> 0)
      | _ \<Rightarrow> 0)"

definition mapIndex :: "(string \<rightharpoonup> go_value) \<Rightarrow> string \<Rightarrow> go_value" where
  "mapIndex values k = (case values k of Some v \<Rightarrow> v | None \<Rightarrow> GoNil)"

definition calculateDerivedValues ::
  "'w env \<Rightarrow> (string \<rightharpoonup> go_value) \<Rightarrow> (string \<rightharpoonup> go_value)" where
  "calculateDerivedValues E values =
     (let activePower = toFloat64 E (mapIndex values ''Active Power'')
      in if activePower = 0 then
           (let voltage = toFloat64 E (mapIndex values ''Voltage'');
                current = toFloat64 E (mapIndex values ''Total Current'')
            in if voltage > 0 \<and> current > 0 then
                 values(''Active Power'' \<mapsto> GoFloat64 (Round (voltage * current * 10) / 10))
               else values)
         else values)"

text \<open>
  What a poll cycle leaves behind: the poller, the world, the service, the events
  emitted, the arguments of the \<^verbatim>\<open>Get\<close> calls, the bindings stored, and whether the last
  seen time of the device was updated.
\<close>

record 'w poll_outcome =
  po_poller :: devicePoller
  po_world :: 'w
  po_service :: PollerService
  po_events :: "StateUpdateEvent list"
  po_requests :: "string list list"
  po_stored :: "SnmpPDU list"
  po_lastSeen :: bool

text \<open>\<^verbatim>\<open>doPoll\<close>.\<close>

definition doPoll ::
  "'w env \<Rightarrow> devicePoller \<Rightarrow> 'w \<Rightarrow> PollerService \<Rightarrow> 'w poll_outcome result" where
  "doPoll E dp0 w0 s =
     (let dp = dp0\<lparr>dp_pollCount := dp_pollCount dp0 + 1\<rparr>;
          (connErr, w) = (if dp_connected dp then (None, w0) else env_Connect E w0)
      in case connErr of
           Some err \<Rightarrow>
             (let (s', event) = updateState (dev_ID (dp_device dp)) None False [err] s
              in Inr \<lparr>po_poller = dp\<lparr>dp_connected := False\<rparr>, po_world = w, po_service = s',
                      po_events = [event], po_requests = [], po_stored = [],
                      po_lastSeen = False\<rparr>)
         | None \<Rightarrow>
             (let oids = pollOIDs E dp;
                  version = snmpVersionToGoSNMP (dev_SNMPVersion (dp_device dp));
                  st0 = \<lparr>ps_world = w, ps_connected = True, ps_values = Map.empty,
                         ps_errors = [], ps_missing = dp_missingOIDs dp, ps_requests = [],
                         ps_stored = []\<rparr>
              in case pollBatches E version (dp_profile dp) oids st0 of
                   Inl p \<Rightarrow> Inl p
                 | Inr st \<Rightarrow>
                     (let values = calculateDerivedValues E (ps_values st);
                          online = (ps_errors st = []);
                          (s', event) = updateState (dev_ID (dp_device dp)) (Some values) online
                                          (ps_errors st) s
                      in Inr \<lparr>po_poller = dp\<lparr>dp_connected := ps_connected st,
                                              dp_missingOIDs := ps_missing st\<rparr>,
                              po_world = ps_world st, po_service = s', po_events = [event],
                              po_requests = ps_requests st, po_stored = ps_stored st,
                              po_lastSeen = online\<rparr>)))"

text \<open>
  Successive poll cycles of one poller, as \<^verbatim>\<open>pollDevice\<close> runs them one after the other;
  each cycle has its own environment. The first is the initial poll, which \<^verbatim>\<open>pollDevice\<close>
  runs before its loop reads the stop channel for the first time.
\<close>

fun pollCycles ::
  "'w env list \<Rightarrow> devicePoller \<Rightarrow> 'w \<Rightarrow> PollerService \<Rightarrow> 'w poll_outcome list result" where
  "pollCycles [] dp w s = Inr []"
| "pollCycles (E # Es) dp w s =
     (case doPoll E dp w s of
        Inl p \<Rightarrow> Inl p
      | Inr out \<Rightarrow>
          (case pollCycles Es (po_poller out) (po_world out) (po_service out) of
             Inl p \<Rightarrow> Inl p
           | Inr outs \<Rightarrow> Inr (out # outs)))"

text \<open>Two traps: a cold start without further bindings, and an APC UPS going on battery.\<close>

definition coldStartTrap :: "SnmpPDU list" where
  "coldStartTrap =
     [\<lparr>pdu_Name = ''.1.3.6.1.6.3.1.1.4.1.0'', pdu_Type = ObjectIdentifier,
       pdu_Value = GoString ''.1.3.6.1.6.3.1.1.5.1''\<rparr>]"

definition upsTrap :: "SnmpPDU list" where
  "upsTrap =
     [\<lparr>pdu_Name = ''.1.3.6.1.2.1.1.3.0'', pdu_Type = TimeTicks, pdu_Value = GoUint32 4711\<rparr>,
      \<lparr>pdu_Name = ''.1.3.6.1.6.3.1.1.4.1.0'', pdu_Type = ObjectIdentifier,
       pdu_Value = GoString ''.1.3.6.1.4.1.318.2.3.1''\<rparr>]"

definition upsDevice :: Device where
  "upsDevice =
     \<lparr>dev_ID = ''ups-1'', dev_Name = ''UPS'', dev_IPAddress = ''10.0.0.7'',
      dev_SNMPVersion = SNMPv2c, dev_ProfileID = [], dev_Enabled = True\<rparr>"

text \<open>A select entity with the given \<open>EnumValues\<close>.\<close>

definition selectMapping :: "(int \<times> string) list \<Rightarrow> OIDMapping" where
  "selectMapping ev =
     \<lparr>OID = ''1.3.6.1.4.1.318.1.1.8.4.2.0'', Name = ''Sensitivity'', Type = OIDTypeEnum,
      Scale = 0, HAComponent = HAComponentSelect, EnumValues = Some ev, Writable = True,
      WriteOID = [], PollGroup = [], CompositeIndex = 0, CompositeSeparator = []\<rparr>"




section \<open>Runs of the service\<close>






section \<open>Example devices and agents\<close>

text \<open>
  A service with one subscriber and no device; an agent that answers the two base OIDs
  and the composite outlet OID; an agent that only knows \<^verbatim>\<open>sysUpTime\<close>; the environment
  of a reachable agent of that kind; and what is left when \<^verbatim>\<open>RemoveDevice\<close> follows
  \<^verbatim>\<open>AddDevice\<close> at once.
\<close>

definition emptyService :: PollerService where
  "emptyService =
     \<lparr>devices = Map.empty, nextPoller = 0, closedStops = {}, states = Map.empty,
      subscribers = [[]]\<rparr>"

definition noProfiles :: "string \<Rightarrow> Profile option" where
  "noProfiles ident = None"

definition sysDescrOID :: string where "sysDescrOID = ''.1.3.6.1.2.1.1.1.0''"
definition sysUpTimeOID :: string where "sysUpTimeOID = ''.1.3.6.1.2.1.1.3.0''"

definition healthyAgent :: "string \<Rightarrow> SnmpPDU" where
  "healthyAgent oid =
     (if oid = sysDescrOID then
        \<lparr>pdu_Name = oid, pdu_Type = OctetString, pdu_Value = GoBytes ''Smart-UPS 1500''\<rparr>
      else if oid = sysUpTimeOID then
        \<lparr>pdu_Name = oid, pdu_Type = TimeTicks, pdu_Value = GoUint32 4711\<rparr>
      else if normalizeOID oid = ''1.3.6.1.4.1.17420.1.2.9.1.13.0'' then
        \<lparr>pdu_Name = oid, pdu_Type = OctetString, pdu_Value = GoBytes ''1,0,1,-1''\<rparr>
      else \<lparr>pdu_Name = oid, pdu_Type = NoSuchObject, pdu_Value = GoNil\<rparr>)"

definition bareAgent :: "string \<Rightarrow> SnmpPDU" where
  "bareAgent oid =
     (if oid = sysUpTimeOID then
        \<lparr>pdu_Name = oid, pdu_Type = TimeTicks, pdu_Value = GoUint32 4711\<rparr>
      else \<lparr>pdu_Name = oid, pdu_Type = NoSuchObject, pdu_Value = GoNil\<rparr>)"

definition agentEnv :: "(string \<Rightarrow> SnmpPDU) \<Rightarrow> unit env" where
  "agentEnv agent =
     \<lparr>env_Connect = (\<lambda>w. (None, w)),
      env_Get = (\<lambda>w oids. (Inr (map agent oids), w)),
      env_Close = (\<lambda>w. w),
      env_ParseFloat = parseDecimal,
      env_Sscanf_f = parseDecimal,
      env_rangeOrder = (\<lambda>oids. oids)\<rparr>"

definition returned :: "'a result \<Rightarrow> 'a option" where
  "returned r = (case r of Inr x \<Rightarrow> Some x | Inl p \<Rightarrow> None)"

definition panicOf :: "'a result \<Rightarrow> panic option" where
  "panicOf r = (case r of Inr x \<Rightarrow> None | Inl p \<Rightarrow> Some p)"

definition startedPoller :: devicePoller where
  "startedPoller = the (snd (AddDevice noProfiles upsDevice emptyService))"

definition removedService :: PollerService where
  "removedService = RemoveDevice ''ups-1'' (fst (AddDevice noProfiles upsDevice emptyService))"

text \<open>What a poll cycle that returned shows of its events, its deliveries and the store.\<close>

definition eventIDs :: "'w poll_outcome \<Rightarrow> string list" where
  "eventIDs out = map ev_DeviceID (po_events out)"

definition deliveredIDs :: "'w poll_outcome \<Rightarrow> string list list" where
  "deliveredIDs out = map (map ev_DeviceID) (subscribers (po_service out))"


definition hasState :: "string \<Rightarrow> 'w poll_outcome \<Rightarrow> bool" where
  "hasState d out = (states (po_service out) d \<noteq> None)"


section \<open>What a poll cycle preserves\<close>

text \<open>
  The keys under which \<^verbatim>\<open>doPoll\<close> stores a binding: its own name and the names of the
  mappings of its OID.
\<close>

definition bindingKeys :: "Profile option \<Rightarrow> SnmpPDU \<Rightarrow> string set" where
  "bindingKeys profile variable =
     insert (pdu_Name variable)
       (Name ` set (oidToMappings profile (normalizeOID (pdu_Name variable))))"

text \<open>
  From one point of a poll cycle to a later one: the set of missing OIDs and the keys of
  the values only grow; the later \<^verbatim>\<open>Get\<close> calls ask for OIDs of \<open>S\<close> only; and every
  binding stored since has its keys among the values.
\<close>

definition pollProgress ::
  "Profile option \<Rightarrow> string set \<Rightarrow> 'w poll_state \<Rightarrow> 'w poll_state \<Rightarrow> bool" where
  "pollProgress profile S st st' \<longleftrightarrow>
     ps_missing st \<subseteq> ps_missing st'
     \<and> dom (ps_values st) \<subseteq> dom (ps_values st')
     \<and> (\<exists>new. ps_requests st' = ps_requests st @ new \<and> (\<forall>b \<in> set new. set b \<subseteq> S))
     \<and> (\<exists>more. ps_stored st' = ps_stored st @ more
            \<and> (\<forall>variable \<in> set more. bindingKeys profile variable \<subseteq> dom (ps_values st')))"

section \<open>Assumptions on the environment\<close>

text \<open>
  A binding is well typed when its value has the Go type that \<^verbatim>\<open>gosnmp\<close> decodes its tag
  to, where the poller asserts that type; an environment is well typed when every
  response holds such bindings only. The indexes of a profile are valid when none is
  negative. A \<^verbatim>\<open>range\<close> over a Go map yields the keys of the map.
\<close>

definition wellTyped :: "SnmpPDU \<Rightarrow> bool" where
  "wellTyped variable =
     (case pdu_Type variable of
        OctetString \<Rightarrow> (case pdu_Value variable of GoBytes b \<Rightarrow> True | _ \<Rightarrow> False)
      | ObjectIdentifier \<Rightarrow> (case pdu_Value variable of GoString oid \<Rightarrow> True | _ \<Rightarrow> False)
      | _ \<Rightarrow> True)"

definition wellTypedEnv :: "'w env \<Rightarrow> bool" where
  "wellTypedEnv E \<longleftrightarrow>
     (\<forall>w oids. case fst (env_Get E w oids) of
                  Inr variables \<Rightarrow> list_all wellTyped variables
                | Inl err \<Rightarrow> True)"

definition indexesValid :: "Profile option \<Rightarrow> bool" where
  "indexesValid profile =
     (case profile of
        None \<Rightarrow> True
      | Some p \<Rightarrow> list_all (\<lambda>mapping. 0 \<le> CompositeIndex mapping) (OIDMappings p))"

definition rangeYieldsKeys :: "'w env \<Rightarrow> bool" where
  "rangeYieldsKeys E \<longleftrightarrow> (\<forall>keys. set (env_rangeOrder E keys) = set keys)"

section \<open>Notions for statements about poll cycles\<close>

text \<open>
  The state in which the batch loop of a cycle starts, the poller after the increment
  of its poll count, and the protocol version of its client.
\<close>

definition cycleStart :: "'w \<Rightarrow> devicePoller \<Rightarrow> 'w poll_state" where
  "cycleStart w dp =
     \<lparr>ps_world = w, ps_connected = True, ps_values = Map.empty, ps_errors = [],
      ps_missing = dp_missingOIDs dp, ps_requests = [], ps_stored = []\<rparr>"

definition counted :: "devicePoller \<Rightarrow> devicePoller" where
  "counted dp = dp\<lparr>dp_pollCount := Suc (dp_pollCount dp)\<rparr>"

definition clientVersion :: "devicePoller \<Rightarrow> SnmpVersion" where
  "clientVersion dp = snmpVersionToGoSNMP (dev_SNMPVersion (dp_device dp))"

text \<open>
  A poller as \<^verbatim>\<open>AddDevice\<close> makes it; a profile whose only mapping is in the static group;
  the profile of a PDU with five outlet mappings on one OID; and what a run of poll
  cycles shows of its requests and of an OID known to be missing.
\<close>

definition pollerOf :: "Device \<Rightarrow> Profile option \<Rightarrow> devicePoller" where
  "pollerOf device profile =
     \<lparr>dp_number = 0, dp_device = device, dp_profile = profile, dp_connected = False,
      dp_pollCount = 0, dp_missingOIDs = {}\<rparr>"

definition modelMapping :: OIDMapping where
  "modelMapping =
     \<lparr>OID = ''.1.3.6.1.4.1.318.1.1.1.1.1.1.0'', Name = ''Model'', Type = ''string'',
      Scale = 0, HAComponent = HAComponentSensor, EnumValues = None, Writable = False,
      WriteOID = [], PollGroup = ''static'', CompositeIndex = 0, CompositeSeparator = []\<rparr>"

definition staticProfile :: Profile where
  "staticProfile = \<lparr>prof_ID = ''apc-ups'', OIDMappings = [modelMapping]\<rparr>"

definition energenieProfile :: Profile where
  "energenieProfile =
     \<lparr>prof_ID = ''energenie-pdu'',
      OIDMappings =
        [outletMapping ''Outlet 1 State'' 0, outletMapping ''Outlet 2 State'' 1,
         outletMapping ''Outlet 3 State'' 2, outletMapping ''Outlet 4 State'' 3,
         outletMapping ''Outlet 5 State'' 4]\<rparr>"

definition pduDevice :: Device where
  "pduDevice =
     \<lparr>dev_ID = ''pdu-1'', dev_Name = ''PDU'', dev_IPAddress = ''10.0.0.8'',
      dev_SNMPVersion = SNMPv2c, dev_ProfileID = ''energenie-pdu'', dev_Enabled = True\<rparr>"

definition cycleRequests :: "'w poll_outcome list \<Rightarrow> string list list list" where
  "cycleRequests outs = map po_requests outs"

definition knownMissing :: "string \<Rightarrow> 'w poll_outcome list \<Rightarrow> bool list" where
  "knownMissing oid outs = map (\<lambda>out. oid \<in> dp_missingOIDs (po_poller out)) outs"

text \<open>
  The service after \<^verbatim>\<open>AddDevice\<close> of the example UPS, and a profile with one OID the
  example agent lacks and one it has.
\<close>

definition addedService :: PollerService where
  "addedService = fst (AddDevice noProfiles upsDevice emptyService)"

definition mixedProfile :: Profile where
  "mixedProfile =
     \<lparr>prof_ID = ''mixed'', OIDMappings = [voltageMapping, outletMapping ''Outlet 1 State'' 0]\<rparr>"

section \<open>Properties of the transformer\<close>

lemmas string_eval =
  Split.simps TrimSpace_def Sscanf_d_def isSpace_def isDigit_def decimalValue_def
  digitVal_def Let_def

lemmas type_eval =
  OIDTypeEnum_def OIDTypeCompositeSwitch_def OIDTypeInteger_def HAComponentSensor_def
  HAComponentSwitch_def HAComponentSelect_def HAComponentNumber_def

text \<open>
  The composite extraction at the indices from \<open>0\<close> on. For a mapping of type
  \<^verbatim>\<open>composite_switch\<close> with a non-negative index and a string raw value, the transform
  splits the string on the separator (\<^verbatim>\<open>","\<close> when the mapping gives none); an index at or
  beyond the number of parts gives null; otherwise the selected part is trimmed, and the
  result is the mapped string when the part scans as an integer that \<open>EnumValues\<close>
  contains, the integer when it scans as one that \<open>EnumValues\<close> does not contain, and the
  trimmed string when it does not scan.
\<close>

lemma transformValue_composite_switch:
  assumes "Type m = OIDTypeCompositeSwitch" and "0 \<le> CompositeIndex m"
  shows "transformValue ParseFloat (GoString s) m =
           (let parts = Split s (if CompositeSeparator m = [] then '','' else CompositeSeparator m)
            in if int (length parts) \<le> CompositeIndex m then Inr GoNil
               else
                 (let part = TrimSpace (parts ! nat (CompositeIndex m))
                  in case Sscanf_d part of
                       None \<Rightarrow> Inr (GoString part)
                     | Some n \<Rightarrow>
                         (case Option.bind (EnumValues m) (\<lambda>ev. map_of ev n) of
                            Some name \<Rightarrow> Inr (GoString name)
                          | None \<Rightarrow> Inr (GoInt n))))"
  using assms
  by (simp add: transformValue_def extractCompositeValue_def Let_def not_le
           split: option.splits)

lemma transformValue_composite_switch_example:
  "Type (outletMapping ''Outlet 2 State'' 1) = OIDTypeCompositeSwitch
   \<and> 0 \<le> CompositeIndex (outletMapping ''Outlet 2 State'' 1)
   \<and> transformValue parseDecimal (GoString ''1, 0 ,x,7'') (outletMapping ''Outlet 2 State'' 1)
       = Inr (GoString ''Off'')
   \<and> transformValue parseDecimal (GoString ''1, 0 ,x,7'') (outletMapping ''Outlet 3 State'' 2)
       = Inr (GoString ''x'')
   \<and> transformValue parseDecimal (GoString ''1, 0 ,x,7'') (outletMapping ''Outlet 4 State'' 3)
       = Inr (GoInt 7)
   \<and> transformValue parseDecimal (GoString ''1, 0 ,x,7'') (outletMapping ''Outlet 5 State'' 4)
       = Inr GoNil"
  using transformValue_composite_switch
          [of "outletMapping ''Outlet 2 State'' 1" parseDecimal "''1, 0 ,x,7''"]
        transformValue_composite_switch
          [of "outletMapping ''Outlet 3 State'' 2" parseDecimal "''1, 0 ,x,7''"]
        transformValue_composite_switch
          [of "outletMapping ''Outlet 4 State'' 3" parseDecimal "''1, 0 ,x,7''"]
        transformValue_composite_switch
          [of "outletMapping ''Outlet 5 State'' 4" parseDecimal "''1, 0 ,x,7''"]
  by (simp add: outletMapping_def string_eval type_eval)

text \<open>
  C4, on the code. The bounds test of \<^verbatim>\<open>extractCompositeValue\<close> is
  \<^verbatim>\<open>mapping.CompositeIndex >= len(parts)\<close> alone. A mapping of type \<^verbatim>\<open>composite_switch\<close>
  with the index \<open>-1\<close> passes it, and the selection \<^verbatim>\<open>parts[mapping.CompositeIndex]\<close>
  panics: for the raw string \<^verbatim>\<open>"1,0"\<close> the transform returns neither null nor a part of
  the string. A poll cycle of a device whose profile holds such a mapping ends in that
  panic, which nothing in the program recovers.
\<close>

theorem transformValue_composite_negative_index:
  "Type (outletMapping ''Outlet 1 State'' (- 1)) = OIDTypeCompositeSwitch
   \<and> Split ''1,0'' (CompositeSeparator (outletMapping ''Outlet 1 State'' (- 1))) = [''1'', ''0'']
   \<and> CompositeIndex (outletMapping ''Outlet 1 State'' (- 1)) < 2
   \<and> transformValue ParseFloat (GoString ''1,0'') (outletMapping ''Outlet 1 State'' (- 1))
       = Inl IndexOutOfRange
   \<and> panicOf (doPoll (agentEnv healthyAgent)
                (pollerOf pduDevice
                   (Some (energenieProfile\<lparr>OIDMappings := [outletMapping ''Outlet 1 State'' (- 1)]\<rparr>)))
                () emptyService)
       = Some IndexOutOfRange"
proof -
  have cycle: "panicOf (doPoll (agentEnv healthyAgent)
                (pollerOf pduDevice
                   (Some (energenieProfile\<lparr>OIDMappings := [outletMapping ''Outlet 1 State'' (- 1)]\<rparr>)))
                () emptyService)
       = Some IndexOutOfRange"
    by code_simp
  have kind: "Type (outletMapping ''Outlet 1 State'' (- 1)) = OIDTypeCompositeSwitch"
    by (simp add: outletMapping_def type_eval)
  have parts: "Split ''1,0'' (CompositeSeparator (outletMapping ''Outlet 1 State'' (- 1)))
                 = [''1'', ''0'']"
    by (simp add: outletMapping_def string_eval)
  have index: "CompositeIndex (outletMapping ''Outlet 1 State'' (- 1)) < 2"
    by (simp add: outletMapping_def)
  have panic: "transformValue ParseFloat (GoString ''1,0'') (outletMapping ''Outlet 1 State'' (- 1))
                 = Inl IndexOutOfRange"
    by (simp add: outletMapping_def transformValue_def extractCompositeValue_def
          string_eval type_eval)
  show ?thesis
    by (rule conjI kind parts index panic cycle)+
qed




section \<open>Properties of the trap receiver\<close>

lemma determineSeverity_table:
  "determineSeverity oid vars =
     (if oid = ''.1.3.6.1.4.1.318.2.3.1'' \<or> oid = ''.1.3.6.1.4.1.318.2.3.5'' then SeverityCritical
      else if oid = ''.1.3.6.1.4.1.318.2.3.2'' \<or> oid = ''.1.3.6.1.4.1.318.2.3.4'' then SeverityWarning
      else SeverityInfo)"
  by (simp add: determineSeverity_def criticalPatterns_def warningPatterns_def)

lemma formatMessage_table:
  "formatMessage oid vars =
     (case map_of trapMessages oid of
        Some msg \<Rightarrow> msg
      | None \<Rightarrow> if 0 < length vars then trapFallback oid (length vars) else ''Trap '' @ oid)"
  by (simp add: formatMessage_def trapMessages_def trapFallback_def)

text \<open>
  C9, as the code has it. The claim gives one fallback message; \<^verbatim>\<open>formatMessage\<close> has two.
  A trap whose only binding is \<^verbatim>\<open>snmpTrapOID.0\<close> with a trap OID outside the table gets
  the message \<^verbatim>\<open>Trap <oid>\<close>, not \<^verbatim>\<open>Trap <oid> with 0 variables\<close>.
\<close>

theorem handleTrap_fallback_counterexample:
  "handleTrap sprintExample None ''10.0.0.7'' coldStartTrap
     = Inr \<lparr>tl_DeviceID = None, tl_SourceIP = ''10.0.0.7'',
            tl_TrapOID = ''.1.3.6.1.6.3.1.1.5.1'', tl_Variables = [],
            tl_Severity = ''info'', tl_Message = ''Trap .1.3.6.1.6.3.1.1.5.1''\<rparr>
   \<and> map_of trapMessages ''.1.3.6.1.6.3.1.1.5.1'' = None
   \<and> trapFallback ''.1.3.6.1.6.3.1.1.5.1'' (length ([] :: TrapVariables))
       = ''Trap .1.3.6.1.6.3.1.1.5.1 with 0 variables''"
  by code_simp

text \<open>
  C9, amended. For every trap for which \<^verbatim>\<open>handleTrap\<close> constructs a trap log, the severity
  is critical for the trap OIDs \<^verbatim>\<open>.1.3.6.1.4.1.318.2.3.1\<close> and \<^verbatim>\<open>.1.3.6.1.4.1.318.2.3.5\<close>,
  warning for \<^verbatim>\<open>.1.3.6.1.4.1.318.2.3.2\<close> and \<^verbatim>\<open>.1.3.6.1.4.1.318.2.3.4\<close>, and info otherwise;
  the message is the entry of the table for the trap OID, and for a trap OID outside the
  table it is \<^verbatim>\<open>Trap <oid> with <n> variables\<close> when the log holds \<open>n > 0\<close> variables and
  \<^verbatim>\<open>Trap <oid>\<close> when it holds none.
\<close>

theorem handleTrap_severity_message:
  assumes "handleTrap Sprint devs ip packetVariables = Inr trapLog"
  shows "tl_Severity trapLog =
           (if tl_TrapOID trapLog = ''.1.3.6.1.4.1.318.2.3.1''
               \<or> tl_TrapOID trapLog = ''.1.3.6.1.4.1.318.2.3.5'' then SeverityCritical
            else if tl_TrapOID trapLog = ''.1.3.6.1.4.1.318.2.3.2''
               \<or> tl_TrapOID trapLog = ''.1.3.6.1.4.1.318.2.3.4'' then SeverityWarning
            else SeverityInfo)
         \<and> tl_Message trapLog =
           (case map_of trapMessages (tl_TrapOID trapLog) of
              Some msg \<Rightarrow> msg
            | None \<Rightarrow>
                if 0 < length (tl_Variables trapLog)
                then trapFallback (tl_TrapOID trapLog) (length (tl_Variables trapLog))
                else ''Trap '' @ tl_TrapOID trapLog)"
proof -
  from assms obtain oid vars where
    "tl_TrapOID trapLog = oid" and "tl_Variables trapLog = vars"
    and "tl_Severity trapLog = determineSeverity oid vars"
    and "tl_Message trapLog = formatMessage oid vars"
    by (auto simp: handleTrap_def Let_def split: sum.splits prod.splits)
  then show ?thesis
    by (simp only: determineSeverity_table formatMessage_table)
qed

theorem handleTrap_severity_message_witness:
  "handleTrap sprintExample (Some [upsDevice]) ''10.0.0.7'' upsTrap
     = Inr \<lparr>tl_DeviceID = Some ''ups-1'', tl_SourceIP = ''10.0.0.7'',
            tl_TrapOID = ''.1.3.6.1.4.1.318.2.3.1'',
            tl_Variables = [(''.1.3.6.1.2.1.1.3.0'', GoUint32 4711)],
            tl_Severity = SeverityCritical, tl_Message = ''UPS on battery power''\<rparr>"
proof -
  have run: "handleTrap sprintExample (Some [upsDevice]) ''10.0.0.7'' upsTrap
     = Inr \<lparr>tl_DeviceID = Some ''ups-1'', tl_SourceIP = ''10.0.0.7'',
            tl_TrapOID = ''.1.3.6.1.4.1.318.2.3.1'',
            tl_Variables = [(''.1.3.6.1.2.1.1.3.0'', GoUint32 4711)],
            tl_Severity = determineSeverity ''.1.3.6.1.4.1.318.2.3.1''
                            [(''.1.3.6.1.2.1.1.3.0'', GoUint32 4711)],
            tl_Message = formatMessage ''.1.3.6.1.4.1.318.2.3.1''
                            [(''.1.3.6.1.2.1.1.3.0'', GoUint32 4711)]\<rparr>"
    by (simp add: handleTrap_def upsTrap_def upsDevice_def parseVariable_def)
  show ?thesis
    using handleTrap_severity_message [OF run] run
    by (simp add: trapMessages_def)
qed

section \<open>Properties of the discovery options\<close>

lemma selectOptions_fold_set:
  "set (foldl (\<lambda>options (k, v). if list_ex (\<lambda>opt. opt = v) options then options
                                 else options @ [v]) opts ev)
     = set opts \<union> snd ` set ev"
  by (induction ev arbitrary: opts) (auto simp: list_ex_iff)

lemma map_filter_map_of_subset: "set (List.map_filter (map_of ev) ks) \<subseteq> snd ` set ev"
proof
  fix v assume "v \<in> set (List.map_filter (map_of ev) ks)"
  then obtain k where "map_of ev k = Some v"
    by (auto simp: List.map_filter_def)
  then have "(k, v) \<in> set ev" by (rule map_of_SomeD)
  then show "v \<in> snd ` set ev" by force
qed

text \<open>The options are the strings of \<open>EnumValues\<close>, whatever the order of the \<^verbatim>\<open>range\<close>.\<close>

lemma selectOptions_set: "set (selectOptions ev) = snd ` set ev"
  using map_filter_map_of_subset [of ev "[1 .. int (length ev)]"]
  by (auto simp: selectOptions_def Let_def selectOptions_fold_set)

text \<open>The strings under the keys \<open>1, 2, \<dots>\<close> come first, in the order of the keys.\<close>

lemma selectOptions_fold_prefix:
  "\<exists>rest. foldl (\<lambda>options (k, v). if list_ex (\<lambda>opt. opt = v) options then options
                                 else options @ [v]) opts ev = opts @ rest"
proof (induction ev arbitrary: opts)
  case Nil
  show ?case by simp
next
  case (Cons entry ev)
  obtain k v where entry: "entry = (k, v)" by (cases entry)
  from Cons [of "if list_ex (\<lambda>opt. opt = v) opts then opts else opts @ [v]"]
  show ?case
    unfolding entry by (cases "list_ex (\<lambda>opt. opt = v) opts") auto
qed

lemma selectOptions_prefix:
  "\<exists>rest. selectOptions ev = List.map_filter (map_of ev) [1 .. int (length ev)] @ rest"
  unfolding selectOptions_def Let_def by (rule selectOptions_fold_prefix)

text \<open>
  C8, on the code. The comment in \<^verbatim>\<open>PublishDevice\<close> says that the options are sorted by key
  to keep their order consistent. The strings under the keys \<open>1, 2, \<dots>\<close> up to the number of
  entries come first, in that order; all others are appended in the order of a \<^verbatim>\<open>range\<close>
  over the Go map, which changes from one run of the loop to the next. For the map
  \<open>{10: Low, 20: High}\<close> both \<open>[Low, High]\<close> and \<open>[High, Low]\<close> are results.
\<close>

theorem discoveryOptions_order_dependent:
  "map_of [(10, ''Low''), (20, ''High'')] = map_of [(20, ''High''), (10 :: int, ''Low'')]
   \<and> discoveryOptions (selectMapping [(10, ''Low''), (20, ''High'')]) = Some [''Low'', ''High'']
   \<and> discoveryOptions (selectMapping [(20, ''High''), (10, ''Low'')]) = Some [''High'', ''Low'']"
proof -
  have "map_of [(10, ''Low''), (20, ''High'')] = map_of [(20, ''High''), (10 :: int, ''Low'')]"
    by (rule ext) simp
  moreover have "discoveryOptions (selectMapping [(10, ''Low''), (20, ''High'')])
                   = Some [''Low'', ''High'']"
    by code_simp
  moreover have "discoveryOptions (selectMapping [(20, ''High''), (10, ''Low'')])
                   = Some [''High'', ''Low'']"
    by code_simp
  ultimately show ?thesis by blast
qed

section \<open>Properties of the command path\<close>











section \<open>Accumulation of the device state\<close>











section \<open>Removal of a device\<close>

text \<open>
  After \<^verbatim>\<open>RemoveDevice\<close> the state of the device is gone, and an \<^verbatim>\<open>updateState\<close> for the same
  device creates it again and emits an event.
\<close>

lemma updateState_after_RemoveDevice:
  "states (RemoveDevice d s) d = None
   \<and> ev_DeviceID (snd (updateState d vals online errors (RemoveDevice d s))) = d
   \<and> states (fst (updateState d vals online errors (RemoveDevice d s))) d \<noteq> None"
  by (simp add: updateState_def RemoveDevice_def Let_def split: option.splits)

text \<open>Every poll cycle that returns ends in such an \<^verbatim>\<open>updateState\<close>.\<close>

lemma doPoll_emits:
  assumes "doPoll E dp w s = Inr out"
  shows "map ev_DeviceID (po_events out) = [dev_ID (dp_device dp)]
         \<and> states (po_service out) (dev_ID (dp_device dp)) \<noteq> None"
  using assms
  by (auto simp: doPoll_def Let_def updateState_def split: prod.splits option.splits sum.splits)

text \<open>
  C7, on the code. \<^verbatim>\<open>RemoveDevice\<close> closes the stop channel and deletes the table entry and
  the state, and returns; it does not wait for the goroutine of the poller. The goroutine
  that \<^verbatim>\<open>AddDevice\<close> started runs its initial \<^verbatim>\<open>doPoll\<close> before it looks at the stop channel
  for the first time. When \<^verbatim>\<open>RemoveDevice\<close> returns before that poll ends, the poll still
  emits an event for the removed device, which reaches the subscriber, and creates the
  state of the device again.
\<close>

theorem RemoveDevice_does_not_stop_initial_poll:
  "devices removedService ''ups-1'' = None
   \<and> states removedService ''ups-1'' = None
   \<and> dp_number startedPoller \<in> closedStops removedService
   \<and> map_option eventIDs
        (returned (doPoll (agentEnv healthyAgent) startedPoller () removedService))
       = Some [''ups-1'']
   \<and> map_option deliveredIDs
        (returned (doPoll (agentEnv healthyAgent) startedPoller () removedService))
       = Some [[''ups-1'']]
   \<and> map_option (hasState ''ups-1'')
        (returned (doPoll (agentEnv healthyAgent) startedPoller () removedService))
       = Some True"
  by code_simp

section \<open>Properties of a poll cycle\<close>

lemma pollProgress_refl: "pollProgress profile S st st"
  by (simp add: pollProgress_def)

lemma pollProgress_trans:
  assumes "pollProgress profile S a b" and "pollProgress profile S b c"
  shows "pollProgress profile S a c"
proof -
  from assms(1) obtain new1 more1 where
    1: "ps_missing a \<subseteq> ps_missing b" "dom (ps_values a) \<subseteq> dom (ps_values b)"
       "ps_requests b = ps_requests a @ new1" "\<forall>x \<in> set new1. set x \<subseteq> S"
       "ps_stored b = ps_stored a @ more1"
       "\<forall>variable \<in> set more1. bindingKeys profile variable \<subseteq> dom (ps_values b)"
    unfolding pollProgress_def by blast
  from assms(2) obtain new2 more2 where
    2: "ps_missing b \<subseteq> ps_missing c" "dom (ps_values b) \<subseteq> dom (ps_values c)"
       "ps_requests c = ps_requests b @ new2" "\<forall>x \<in> set new2. set x \<subseteq> S"
       "ps_stored c = ps_stored b @ more2"
       "\<forall>variable \<in> set more2. bindingKeys profile variable \<subseteq> dom (ps_values c)"
    unfolding pollProgress_def by blast
  have r: "ps_requests c = ps_requests a @ (new1 @ new2)" "\<forall>x \<in> set (new1 @ new2). set x \<subseteq> S"
    using 1 2 by auto
  have "\<forall>variable \<in> set more1. bindingKeys profile variable \<subseteq> dom (ps_values c)"
    using 1(6) 2(2) by blast
  with 2(6) have t: "ps_stored c = ps_stored a @ (more1 @ more2)"
    "\<forall>variable \<in> set (more1 @ more2). bindingKeys profile variable \<subseteq> dom (ps_values c)"
    using 1(5) 2(5) by auto
  show ?thesis
    unfolding pollProgress_def using 1(1,2) 2(1,2) r t by blast
qed

lemma pollProgress_world:
  "pollProgress profile S (st\<lparr>ps_world := w\<rparr>) st' = pollProgress profile S st st'"
  "pollProgress profile S st (st'\<lparr>ps_world := w\<rparr>) = pollProgress profile S st st'"
  "pollProgress profile S (st\<lparr>ps_connected := c\<rparr>) st' = pollProgress profile S st st'"
  "pollProgress profile S st (st'\<lparr>ps_connected := c\<rparr>) = pollProgress profile S st st'"
  "pollProgress profile S st (st'\<lparr>ps_errors := e\<rparr>) = pollProgress profile S st st'"
  by (simp_all add: pollProgress_def)

lemma pollProgress_request:
  "set b \<subseteq> S \<Longrightarrow> pollProgress profile S st (st\<lparr>ps_requests := ps_requests st @ [b]\<rparr>)"
  by (simp add: pollProgress_def)

lemma applyMappings_dom:
  "applyMappings pf v ms vals = Inr vals' \<Longrightarrow> dom vals' = dom vals \<union> Name ` set ms"
proof (induction ms arbitrary: vals)
  case Nil
  then show ?case by simp
next
  case (Cons m ms)
  then show ?case by (auto split: sum.splits)
qed

lemma storeBinding_progress:
  assumes "storeBinding E profile variable v st = Inr st'"
  shows "pollProgress profile S st st'"
proof -
  from assms obtain vals where
    a: "applyMappings (env_ParseFloat E) v
          (oidToMappings profile (normalizeOID (pdu_Name variable))) (ps_values st) = Inr vals"
    and st': "st' = st\<lparr>ps_values := vals(pdu_Name variable \<mapsto> v),
                        ps_stored := ps_stored st @ [variable]\<rparr>"
    by (auto simp: storeBinding_def split: sum.splits)
  from applyMappings_dom [OF a] show ?thesis
    unfolding st' pollProgress_def bindingKeys_def by auto
qed

lemma processVariable_progress:
  assumes "processVariable E profile variable st = Inr st'"
  shows "pollProgress profile S st st'"
  using assms storeBinding_progress [of E profile variable _ st st' S]
  by (auto simp: processVariable_def pollProgress_def split: if_splits sum.splits)

lemma processVariables_progress:
  "processVariables E profile variables st = Inr st' \<Longrightarrow> pollProgress profile S st st'"
proof (induction variables arbitrary: st)
  case Nil
  then show ?case by (simp add: pollProgress_refl)
next
  case (Cons variable variables)
  then obtain st1 where "processVariable E profile variable st = Inr st1"
    and "processVariables E profile variables st1 = Inr st'"
    by (auto split: sum.splits)
  with Cons.IH show ?case
    by (blast intro: pollProgress_trans processVariable_progress)
qed

lemma fallbackVariable_progress:
  assumes "fallbackVariable E profile variable st = Inr st'"
  shows "pollProgress profile S st st'"
  using assms storeBinding_progress [of E profile variable _ st st' S]
  by (auto simp: fallbackVariable_def pollProgress_def split: if_splits sum.splits)

lemma fallbackVariables_progress:
  "fallbackVariables E profile variables st = Inr st' \<Longrightarrow> pollProgress profile S st st'"
proof (induction variables arbitrary: st)
  case Nil
  then show ?case by (simp add: pollProgress_refl)
next
  case (Cons variable variables)
  then obtain st1 where "fallbackVariable E profile variable st = Inr st1"
    and "fallbackVariables E profile variables st1 = Inr st'"
    by (auto split: sum.splits)
  with Cons.IH show ?case
    by (blast intro: pollProgress_trans fallbackVariable_progress)
qed

lemma fallbackSingles_progress:
  "fallbackSingles E profile oids st = Inr st' \<Longrightarrow> set oids \<subseteq> S \<Longrightarrow> pollProgress profile S st st'"
proof (induction oids arbitrary: st)
  case Nil
  then show ?case by (simp add: pollProgress_refl)
next
  case (Cons singleOID rest)
  obtain singleResult w where g: "env_Get E (ps_world st) [singleOID] = (singleResult, w)"
    by (cases "env_Get E (ps_world st) [singleOID]")
  define st1 where "st1 = st\<lparr>ps_world := w, ps_requests := ps_requests st @ [[singleOID]]\<rparr>"
  have p1: "pollProgress profile S st st1"
    using Cons.prems(2) by (simp add: st1_def pollProgress_def)
  from Cons.prems(2) have rest: "set rest \<subseteq> S" by simp
  show ?case
  proof (cases singleResult)
    case (Inl singleErr)
    with Cons.prems(1) g have "fallbackSingles E profile rest st1 = Inr st'"
      by (simp add: st1_def)
    from Cons.IH [OF this rest] p1 show ?thesis
      by (rule pollProgress_trans [rotated])
  next
    case (Inr variables)
    with Cons.prems(1) g obtain st2 where
      "fallbackVariables E profile variables st1 = Inr st2"
      "fallbackSingles E profile rest st2 = Inr st'"
      by (auto simp: st1_def split: sum.splits)
    with Cons.IH [OF _ rest] p1 show ?thesis
      by (blast intro: pollProgress_trans fallbackVariables_progress)
  qed
qed

lemma pollBatch_progress:
  assumes "pollBatch E version profile batchOIDs st = Inr st'" and "set batchOIDs \<subseteq> S"
  shows "pollProgress profile S st st'"
proof -
  obtain batchResult w where g: "env_Get E (ps_world st) batchOIDs = (batchResult, w)"
    by (cases "env_Get E (ps_world st) batchOIDs")
  define st1 where "st1 = st\<lparr>ps_world := w, ps_requests := ps_requests st @ [batchOIDs]\<rparr>"
  have p1: "pollProgress profile S st st1"
    using assms(2) by (simp add: st1_def pollProgress_def)
  show ?thesis
  proof (cases batchResult)
    case (Inr variables)
    with assms(1) g have "processVariables E profile variables st1 = Inr st'"
      by (simp add: pollBatch_def st1_def)
    with p1 show ?thesis
      by (blast intro: pollProgress_trans processVariables_progress)
  next
    case (Inl err)
    define closed where
      "closed = st1\<lparr>ps_world := (if ps_connected st1 then env_Close E w else w),
                     ps_connected := False\<rparr>"
    have p2: "pollProgress profile S st closed"
      using p1 by (simp add: closed_def pollProgress_world)
    show ?thesis
    proof (cases "version = Version1")
      case False
      with assms(1) g Inl have "st' = closed\<lparr>ps_errors := ps_errors closed @ [err]\<rparr>"
        by (simp add: pollBatch_def st1_def closed_def Let_def)
      with p2 show ?thesis by (simp add: pollProgress_world)
    next
      case True
      obtain connErr w' where c: "env_Connect E (ps_world closed) = (connErr, w')"
        by (cases "env_Connect E (ps_world closed)")
      show ?thesis
      proof (cases connErr)
        case (Some e)
        with assms(1) g Inl True c
        have "st' = closed\<lparr>ps_world := w', ps_errors := ps_errors closed @ [e]\<rparr>"
          by (simp add: pollBatch_def st1_def closed_def Let_def)
        with p2 show ?thesis by (simp add: pollProgress_world)
      next
        case None
        with assms(1) g Inl True c
        have "fallbackSingles E profile batchOIDs (closed\<lparr>ps_world := w', ps_connected := True\<rparr>)
                = Inr st'"
          by (simp add: pollBatch_def st1_def closed_def Let_def)
        from fallbackSingles_progress [OF this assms(2)] p2 show ?thesis
          by (auto intro: pollProgress_trans simp: pollProgress_world)
      qed
    qed
  qed
qed

lemma pollBatches_progress:
  "pollBatches E version profile oids st = Inr st' \<Longrightarrow> set oids \<subseteq> S
     \<Longrightarrow> pollProgress profile S st st'"
proof (induction E version profile oids st rule: pollBatches.induct)
  case (1 E version profile oids st)
  show ?case
  proof (cases "oids = []")
    case True
    with "1.prems"(1) show ?thesis
      by (simp add: pollBatches.simps pollProgress_refl)
  next
    case False
    with "1.prems"(1) obtain st1 where
      b: "pollBatch E version profile (take (batchSizeFor version) oids) st = Inr st1"
      and r: "pollBatches E version profile (drop (batchSizeFor version) oids) st1 = Inr st'"
      by (subst (asm) pollBatches.simps) (auto split: sum.splits)
    have "set (take (batchSizeFor version) oids) \<subseteq> S" "set (drop (batchSizeFor version) oids) \<subseteq> S"
      using "1.prems"(2) by (meson set_take_subset set_drop_subset subset_trans)+
    with "1.IH" [OF False b r] pollBatch_progress [OF b] show ?thesis
      by (blast intro: pollProgress_trans)
  qed
qed

text \<open>
  With well-typed responses and valid indexes nothing in a poll cycle panics: \<^verbatim>\<open>doPoll\<close>
  returns.
\<close>

lemma extractCompositeValue_returns:
  "0 \<le> CompositeIndex m \<Longrightarrow> \<exists>r. extractCompositeValue v m = Inr r"
  by (cases v) (simp_all add: extractCompositeValue_def Let_def split: option.splits)

lemma transformValue_returns:
  assumes "0 \<le> CompositeIndex m"
  shows "\<exists>r. transformValue pf v m = Inr r"
proof (cases "Type m = OIDTypeCompositeSwitch")
  case True
  with extractCompositeValue_returns [OF assms] show ?thesis
    by (simp add: transformValue_def)
next
  case False
  then show ?thesis
    by (cases v) (simp_all add: transformValue_def Let_def split: option.splits)
qed

lemma applyMappings_returns:
  "list_all (\<lambda>mapping. 0 \<le> CompositeIndex mapping) ms
     \<Longrightarrow> \<exists>vals'. applyMappings pf v ms vals = Inr vals'"
proof (induction ms arbitrary: vals)
  case Nil
  show ?case by simp
next
  case (Cons m ms)
  then have "0 \<le> CompositeIndex m" by simp
  from transformValue_returns [OF this, of pf v] obtain r where "transformValue pf v m = Inr r" ..
  with Cons show ?case by simp
qed

lemma storeBinding_returns:
  assumes "indexesValid profile"
  shows "\<exists>st'. storeBinding E profile variable v st = Inr st'"
proof -
  have "list_all (\<lambda>mapping. 0 \<le> CompositeIndex mapping)
          (oidToMappings profile (normalizeOID (pdu_Name variable)))"
    using assms
    by (cases profile) (auto simp: indexesValid_def oidToMappings_def list_all_iff)
  from applyMappings_returns [OF this, of "env_ParseFloat E" v "ps_values st"]
  obtain vals' where
    "applyMappings (env_ParseFloat E) v
       (oidToMappings profile (normalizeOID (pdu_Name variable))) (ps_values st) = Inr vals'" ..
  then show ?thesis by (simp add: storeBinding_def)
qed

lemma parseValue_returns: "wellTyped variable \<Longrightarrow> \<exists>v. parseValue variable = Inr v"
  by (cases "pdu_Type variable"; cases "pdu_Value variable")
     (simp_all add: wellTyped_def parseValue_def)

lemma processVariable_returns:
  assumes "indexesValid profile" and "wellTyped variable"
  shows "\<exists>st'. processVariable E profile variable st = Inr st'"
proof -
  from parseValue_returns [OF assms(2)] obtain v where "parseValue variable = Inr v" ..
  with storeBinding_returns [OF assms(1), of E variable v st] show ?thesis
    by (auto simp: processVariable_def)
qed

lemma processVariables_returns:
  assumes "indexesValid profile"
  shows "list_all wellTyped variables \<Longrightarrow> \<exists>st'. processVariables E profile variables st = Inr st'"
proof (induction variables arbitrary: st)
  case Nil
  show ?case by simp
next
  case (Cons variable variables)
  then have "wellTyped variable" by simp
  from processVariable_returns [OF assms this, of E st]
  obtain st1 where "processVariable E profile variable st = Inr st1" ..
  with Cons show ?case by simp
qed

lemma fallbackVariable_returns:
  assumes "indexesValid profile" and "wellTyped variable"
  shows "\<exists>st'. fallbackVariable E profile variable st = Inr st'"
proof -
  from parseValue_returns [OF assms(2)] obtain v where "parseValue variable = Inr v" ..
  with storeBinding_returns [OF assms(1), of E variable v st] show ?thesis
    by (auto simp: fallbackVariable_def)
qed

lemma fallbackVariables_returns:
  assumes "indexesValid profile"
  shows "list_all wellTyped variables \<Longrightarrow> \<exists>st'. fallbackVariables E profile variables st = Inr st'"
proof (induction variables arbitrary: st)
  case Nil
  show ?case by simp
next
  case (Cons variable variables)
  then have "wellTyped variable" by simp
  from fallbackVariable_returns [OF assms this, of E st]
  obtain st1 where "fallbackVariable E profile variable st = Inr st1" ..
  with Cons show ?case by simp
qed

lemma wellTypedEnv_Get:
  "wellTypedEnv E \<Longrightarrow> env_Get E w oids = (Inr variables, w') \<Longrightarrow> list_all wellTyped variables"
  unfolding wellTypedEnv_def
  by (metis fst_conv old.sum.simps(6))

lemma fallbackSingles_returns:
  assumes "indexesValid profile" and "wellTypedEnv E"
  shows "\<exists>st'. fallbackSingles E profile oids st = Inr st'"
proof (induction oids arbitrary: st)
  case Nil
  show ?case by simp
next
  case (Cons singleOID rest)
  obtain singleResult w where g: "env_Get E (ps_world st) [singleOID] = (singleResult, w)"
    by (cases "env_Get E (ps_world st) [singleOID]")
  show ?case
  proof (cases singleResult)
    case (Inl singleErr)
    with g Cons show ?thesis by simp
  next
    case (Inr variables)
    with g assms(2) have "list_all wellTyped variables"
      by (auto dest: wellTypedEnv_Get)
    from fallbackVariables_returns [OF assms(1) this]
    obtain st2 where
      "fallbackVariables E profile variables
         (st\<lparr>ps_world := w, ps_requests := ps_requests st @ [[singleOID]]\<rparr>) = Inr st2" ..
    with g Inr Cons show ?thesis by simp
  qed
qed

lemma pollBatch_returns:
  assumes "indexesValid profile" and "wellTypedEnv E"
  shows "\<exists>st'. pollBatch E version profile batchOIDs st = Inr st'"
proof -
  obtain batchResult w where g: "env_Get E (ps_world st) batchOIDs = (batchResult, w)"
    by (cases "env_Get E (ps_world st) batchOIDs")
  show ?thesis
  proof (cases batchResult)
    case (Inr variables)
    with g assms(2) have "list_all wellTyped variables"
      by (auto dest: wellTypedEnv_Get)
    from processVariables_returns [OF assms(1) this]
    obtain st2 where
      "processVariables E profile variables
         (st\<lparr>ps_world := w, ps_requests := ps_requests st @ [batchOIDs]\<rparr>) = Inr st2" ..
    with g Inr show ?thesis by (simp add: pollBatch_def)
  next
    case (Inl err)
    with g fallbackSingles_returns [OF assms] show ?thesis
      by (simp add: pollBatch_def Let_def split: prod.splits option.splits)
  qed
qed

lemma pollBatches_returns:
  assumes "indexesValid profile" and "wellTypedEnv E"
  shows "\<exists>st'. pollBatches E version profile oids st = Inr st'"
  using assms
proof (induction E version profile oids st rule: pollBatches.induct)
  case (1 E version profile oids st)
  show ?case
  proof (cases "oids = []")
    case True
    then show ?thesis by (simp add: pollBatches.simps)
  next
    case False
    from pollBatch_returns [OF "1.prems"]
    obtain st1 where
      b: "pollBatch E version profile (take (batchSizeFor version) oids) st = Inr st1" ..
    from "1.IH" [OF False b "1.prems"] obtain st' where
      "pollBatches E version profile (drop (batchSizeFor version) oids) st1 = Inr st'" ..
    with False b show ?thesis
      by (subst pollBatches.simps) simp
  qed
qed

lemma doPoll_returns:
  assumes "indexesValid (dp_profile dp)" and "wellTypedEnv E"
  shows "\<exists>out. doPoll E dp w s = Inr out"
proof -
  obtain connErr w1 where
    c: "(if dp_connected dp then (None, w) else env_Connect E w) = (connErr, w1)"
    by (cases "if dp_connected dp then (None, w) else env_Connect E w")
  show ?thesis
  proof (cases connErr)
    case (Some err)
    with c show ?thesis
      by (simp add: doPoll_def Let_def split: prod.splits)
  next
    case None
    from pollBatches_returns [OF assms]
    obtain st where
      "pollBatches E (snmpVersionToGoSNMP (dev_SNMPVersion (dp_device dp))) (dp_profile dp)
         (pollOIDs E (dp\<lparr>dp_pollCount := Suc (dp_pollCount dp)\<rparr>))
         \<lparr>ps_world = w1, ps_connected = True, ps_values = Map.empty, ps_errors = [],
          ps_missing = dp_missingOIDs dp, ps_requests = [], ps_stored = []\<rparr> = Inr st" ..
    with c None show ?thesis
      by (simp add: doPoll_def Let_def split: prod.splits)
  qed
qed


text \<open>Every batch is asked for, and with batches of ten a short list is asked for at once.\<close>

lemma pollProgress_requests_prefix:
  "pollProgress profile S st st' \<Longrightarrow> set (ps_requests st) \<subseteq> set (ps_requests st')"
  by (auto simp: pollProgress_def)

lemma pollBatch_first:
  assumes "pollBatch E version profile batchOIDs st = Inr st'"
  shows "batchOIDs \<in> set (ps_requests st')"
proof -
  obtain batchResult w where g: "env_Get E (ps_world st) batchOIDs = (batchResult, w)"
    by (cases "env_Get E (ps_world st) batchOIDs")
  define st1 where "st1 = st\<lparr>ps_world := w, ps_requests := ps_requests st @ [batchOIDs]\<rparr>"
  have in1: "batchOIDs \<in> set (ps_requests st1)"
    by (simp add: st1_def)
  show ?thesis
  proof (cases batchResult)
    case (Inr variables)
    with assms g have "processVariables E profile variables st1 = Inr st'"
      by (simp add: pollBatch_def st1_def)
    from processVariables_progress [OF this, of UNIV] in1 show ?thesis
      by (auto dest: pollProgress_requests_prefix)
  next
    case (Inl err)
    define closed where
      "closed = st1\<lparr>ps_world := (if ps_connected st1 then env_Close E w else w),
                     ps_connected := False\<rparr>"
    have in2: "batchOIDs \<in> set (ps_requests closed)"
      using in1 by (simp add: closed_def)
    obtain connErr w' where c: "env_Connect E (ps_world closed) = (connErr, w')"
      by (cases "env_Connect E (ps_world closed)")
    show ?thesis
    proof (cases "version = Version1")
      case False
      with assms g Inl have "st' = closed\<lparr>ps_errors := ps_errors closed @ [err]\<rparr>"
        by (simp add: pollBatch_def st1_def closed_def Let_def)
      with in2 show ?thesis by simp
    next
      case True
      show ?thesis
      proof (cases connErr)
        case (Some e)
        with assms g Inl True c
        have "st' = closed\<lparr>ps_world := w', ps_errors := ps_errors closed @ [e]\<rparr>"
          by (simp add: pollBatch_def st1_def closed_def Let_def)
        with in2 show ?thesis by simp
      next
        case None
        with assms g Inl True c
        have "fallbackSingles E profile batchOIDs (closed\<lparr>ps_world := w', ps_connected := True\<rparr>)
                = Inr st'"
          by (simp add: pollBatch_def st1_def closed_def Let_def)
        from fallbackSingles_progress [OF this, of UNIV]
        have "pollProgress profile UNIV closed st'"
          by (simp add: pollProgress_world)
        from pollProgress_requests_prefix [OF this] in2 show ?thesis by auto
      qed
    qed
  qed
qed

lemma pollBatches_cover:
  "pollBatches E version profile oids st = Inr st'
     \<Longrightarrow> set oids \<subseteq> \<Union> (set ` set (ps_requests st'))"
proof (induction E version profile oids st rule: pollBatches.induct)
  case (1 E version profile oids st)
  show ?case
  proof (cases "oids = []")
    case True
    then show ?thesis by simp
  next
    case False
    with "1.prems" obtain st1 where
      b: "pollBatch E version profile (take (batchSizeFor version) oids) st = Inr st1"
      and r: "pollBatches E version profile (drop (batchSizeFor version) oids) st1 = Inr st'"
      by (subst (asm) pollBatches.simps) (auto split: sum.splits)
    from pollBatches_progress [OF r, of UNIV] pollBatch_first [OF b]
    have "take (batchSizeFor version) oids \<in> set (ps_requests st')"
      by (auto dest: pollProgress_requests_prefix)
    then have "set (take (batchSizeFor version) oids) \<subseteq> \<Union> (set ` set (ps_requests st'))"
      by blast
    moreover from "1.IH" [OF False b r]
    have "set (drop (batchSizeFor version) oids) \<subseteq> \<Union> (set ` set (ps_requests st'))" .
    moreover have "set oids = set (take (batchSizeFor version) oids)
                              \<union> set (drop (batchSizeFor version) oids)"
      by (metis append_take_drop_id set_append)
    ultimately show ?thesis by (simp only: Un_subset_iff)
  qed
qed

lemma processVariables_requests:
  "processVariables E profile variables st = Inr st' \<Longrightarrow> ps_requests st' = ps_requests st"
proof (induction variables arbitrary: st)
  case Nil
  then show ?case by simp
next
  case (Cons variable variables)
  then obtain st1 where p: "processVariable E profile variable st = Inr st1"
    and "processVariables E profile variables st1 = Inr st'"
    by (auto split: sum.splits)
  moreover from p have "ps_requests st1 = ps_requests st"
    by (auto simp: processVariable_def storeBinding_def split: if_splits sum.splits)
  ultimately show ?case using Cons.IH by simp
qed

lemma pollBatch_requests_batched:
  assumes "version \<noteq> Version1" and "pollBatch E version profile batchOIDs st = Inr st'"
  shows "ps_requests st' = ps_requests st @ [batchOIDs]"
  using assms
  by (auto simp: pollBatch_def Let_def split: prod.splits sum.splits
           dest!: processVariables_requests)

lemma pollBatches_single:
  assumes "version \<noteq> Version1" and "oids \<noteq> []" and "length oids \<le> 10"
    and "pollBatches E version profile oids st = Inr st'"
  shows "ps_requests st' = ps_requests st @ [oids]"
proof -
  from assms(1) have n: "batchSizeFor version = 10"
    by (simp add: batchSizeFor_def)
  from assms(2,4) obtain st1 where
    b: "pollBatch E version profile (take (batchSizeFor version) oids) st = Inr st1"
    and r: "pollBatches E version profile (drop (batchSizeFor version) oids) st1 = Inr st'"
    by (subst (asm) pollBatches.simps) (auto split: sum.splits)
  from assms(3) n have "take (batchSizeFor version) oids = oids"
    "drop (batchSizeFor version) oids = []"
    by simp_all
  with b r pollBatch_requests_batched [OF assms(1) b] show ?thesis
    by (simp add: pollBatches.simps)
qed

text \<open>What \<^verbatim>\<open>getOIDsToPoll\<close> returns, and when it returns nothing.\<close>

lemma getOIDsToPoll_due:
  assumes "rangeYieldsKeys E" and "x \<in> set (getOIDsToPoll E dp)"
  shows "\<exists>p m. dp_profile dp = Some p \<and> m \<in> set (OIDMappings p) \<and> x = OID m
           \<and> dp_pollCount dp mod pollInterval m = 0
           \<and> normalizeOID (OID m) \<notin> dp_missingOIDs dp"
  using assms
  by (cases "dp_profile dp") (auto simp: getOIDsToPoll_def rangeYieldsKeys_def)

lemma getOIDsToPoll_empty:
  assumes "rangeYieldsKeys E"
    and "dp_profile dp = None
         \<or> (\<exists>p. dp_profile dp = Some p
                \<and> (\<forall>m \<in> set (OIDMappings p).
                      dp_pollCount dp mod pollInterval m \<noteq> 0
                      \<or> normalizeOID (OID m) \<in> dp_missingOIDs dp))"
  shows "getOIDsToPoll E dp = []"
proof (rule ccontr)
  assume "getOIDsToPoll E dp \<noteq> []"
  then obtain x where "x \<in> set (getOIDsToPoll E dp)"
    by (cases "getOIDsToPoll E dp") auto
  from getOIDsToPoll_due [OF assms(1) this] assms(2) show False
    by (auto simp: mod_greater_zero_iff_not_dvd)
qed

text \<open>
  A poll cycle that returns either failed to connect, and asked for nothing, or ran the
  batch loop over \<open>pollOIDs\<close> and ended in \<^verbatim>\<open>updateState\<close>.
\<close>

lemma doPoll_cases:
  assumes "doPoll E dp w s = Inr out"
  shows "(\<not> dp_connected dp \<and> fst (env_Connect E w) \<noteq> None
            \<and> po_requests out = [] \<and> po_stored out = []
            \<and> dp_missingOIDs (po_poller out) = dp_missingOIDs dp)
         \<or> ((dp_connected dp \<or> fst (env_Connect E w) = None)
            \<and> (\<exists>w1 st. pollBatches E (clientVersion dp) (dp_profile dp) (pollOIDs E (counted dp))
                           (cycleStart w1 dp) = Inr st
                  \<and> po_requests out = ps_requests st \<and> po_stored out = ps_stored st
                  \<and> dp_missingOIDs (po_poller out) = ps_missing st
                  \<and> po_events out =
                      [snd (updateState (dev_ID (dp_device dp))
                              (Some (calculateDerivedValues E (ps_values st)))
                              (ps_errors st = []) (ps_errors st) s)]
                  \<and> po_service out =
                      fst (updateState (dev_ID (dp_device dp))
                              (Some (calculateDerivedValues E (ps_values st)))
                              (ps_errors st = []) (ps_errors st) s)))"
proof -
  obtain connErr w1 where
    c: "(if dp_connected dp then (None, w) else env_Connect E w) = (connErr, w1)"
    by (cases "if dp_connected dp then (None, w) else env_Connect E w")
  show ?thesis
  proof (cases connErr)
    case (Some err)
    with c have "\<not> dp_connected dp" "fst (env_Connect E w) \<noteq> None"
      by (auto split: if_splits)
    moreover from assms c Some
    have "po_requests out = [] \<and> po_stored out = []
          \<and> dp_missingOIDs (po_poller out) = dp_missingOIDs dp"
      by (simp add: doPoll_def Let_def split: prod.splits) auto
    ultimately show ?thesis by blast
  next
    case None
    with c have ok: "dp_connected dp \<or> fst (env_Connect E w) = None"
      by (auto split: if_splits)
    from assms c None obtain st where
      b: "pollBatches E (clientVersion dp) (dp_profile dp) (pollOIDs E (counted dp))
         (cycleStart w1 dp) = Inr st"
      and out: "out = \<lparr>po_poller = (counted dp)\<lparr>dp_connected := ps_connected st,
                                             dp_missingOIDs := ps_missing st\<rparr>,
                  po_world = ps_world st,
                  po_service = fst (updateState (dev_ID (dp_device dp))
                              (Some (calculateDerivedValues E (ps_values st)))
                              (ps_errors st = []) (ps_errors st) s),
                  po_events = [snd (updateState (dev_ID (dp_device dp))
                              (Some (calculateDerivedValues E (ps_values st)))
                              (ps_errors st = []) (ps_errors st) s)],
                  po_requests = ps_requests st, po_stored = ps_stored st,
                  po_lastSeen = (ps_errors st = [])\<rparr>"
      by (simp add: doPoll_def Let_def cycleStart_def counted_def clientVersion_def
            split: prod.splits sum.splits)
    have "po_requests out = ps_requests st" "po_stored out = ps_stored st"
      "dp_missingOIDs (po_poller out) = ps_missing st"
      "po_events out =
         [snd (updateState (dev_ID (dp_device dp))
                 (Some (calculateDerivedValues E (ps_values st)))
                 (ps_errors st = []) (ps_errors st) s)]"
      "po_service out =
         fst (updateState (dev_ID (dp_device dp))
                 (Some (calculateDerivedValues E (ps_values st)))
                 (ps_errors st = []) (ps_errors st) s)"
      by (simp_all add: out)
    with ok b show ?thesis by blast
  qed
qed

lemma doPoll_missing_mono:
  assumes "doPoll E dp w s = Inr out"
  shows "dp_missingOIDs dp \<subseteq> dp_missingOIDs (po_poller out)"
proof -
  from doPoll_cases [OF assms] consider
    "dp_missingOIDs (po_poller out) = dp_missingOIDs dp"
    | w1 st where "pollBatches E (clientVersion dp) (dp_profile dp) (pollOIDs E (counted dp))
                     (cycleStart w1 dp) = Inr st"
        "dp_missingOIDs (po_poller out) = ps_missing st"
    by blast
  then show ?thesis
  proof cases
    case 1
    then show ?thesis by simp
  next
    case 2
    from pollBatches_progress [OF 2(1), of UNIV] 2(2) show ?thesis
      by (simp add: pollProgress_def cycleStart_def)
  qed
qed

lemma doPoll_requests_subset:
  assumes "doPoll E dp w s = Inr out" and "batch \<in> set (po_requests out)"
  shows "set batch \<subseteq> set (pollOIDs E (counted dp))"
proof -
  from doPoll_cases [OF assms(1)] consider
    "po_requests out = []"
    | w1 st where "pollBatches E (clientVersion dp) (dp_profile dp) (pollOIDs E (counted dp))
                     (cycleStart w1 dp) = Inr st"
        "po_requests out = ps_requests st"
    by blast
  then show ?thesis
  proof cases
    case 1
    with assms(2) show ?thesis by simp
  next
    case 2
    from pollBatches_progress [OF 2(1), of "set (pollOIDs E (counted dp))"] 2(2) assms(2)
    show ?thesis
      by (simp add: pollProgress_def cycleStart_def)
  qed
qed


lemma pollInterval_static: "PollGroup m = ''static'' \<Longrightarrow> pollInterval m = 10"
  by (simp add: pollInterval_def pollGroups_def)

lemma pollInterval_frequent: "PollGroup m = [] \<or> PollGroup m = ''frequent'' \<Longrightarrow> pollInterval m = 1"
  by (auto simp: pollInterval_def pollGroups_def)

text \<open>
  C10. Whenever the connection is up and the list \<^verbatim>\<open>getOIDsToPoll\<close> computes is empty (the
  device has no profile, or it has one and every mapping is either not due at this poll
  count or has its OID among the missing ones; a mapping of the static group is not due
  unless the poll count is a multiple of ten), the cycle is not skipped: \<^verbatim>\<open>doPoll\<close> returns,
  it has called \<^verbatim>\<open>Get\<close>, the OIDs it has asked for are exactly \<^verbatim>\<open>sysDescr\<close> and \<^verbatim>\<open>sysUpTime\<close>,
  and unless the client speaks SNMPv1 (batches of one) it has asked for both in one
  \<^verbatim>\<open>Get\<close>.
\<close>

theorem doPoll_base_poll:
  assumes "wellTypedEnv E" and "indexesValid (dp_profile dp)" and "rangeYieldsKeys E"
    and "dp_connected dp \<or> fst (env_Connect E w) = None"
    and "dp_profile dp = None
         \<or> (\<exists>p. dp_profile dp = Some p
                \<and> (\<forall>m \<in> set (OIDMappings p).
                      Suc (dp_pollCount dp) mod pollInterval m \<noteq> 0
                      \<or> normalizeOID (OID m) \<in> dp_missingOIDs dp))"
  shows "\<exists>out. doPoll E dp w s = Inr out
           \<and> po_requests out \<noteq> []
           \<and> \<Union> (set ` set (po_requests out)) = {''.1.3.6.1.2.1.1.1.0'', ''.1.3.6.1.2.1.1.3.0''}
           \<and> (clientVersion dp \<noteq> Version1 \<longrightarrow>
                po_requests out = [[''.1.3.6.1.2.1.1.1.0'', ''.1.3.6.1.2.1.1.3.0'']])"
proof -
  from doPoll_returns [OF assms(2,1)] obtain out where out: "doPoll E dp w s = Inr out" ..
  have "getOIDsToPoll E (counted dp) = []"
    using assms(5) by (intro getOIDsToPoll_empty [OF assms(3)]) (simp add: counted_def)
  then have oids: "pollOIDs E (counted dp) = baseOIDs"
    by (simp add: pollOIDs_def)
  from doPoll_cases [OF out] assms(4) have
    "\<exists>w1 st. pollBatches E (clientVersion dp) (dp_profile dp) (pollOIDs E (counted dp))
                (cycleStart w1 dp) = Inr st
             \<and> po_requests out = ps_requests st"
    by (elim disjE conjE exE) (simp_all, blast+)
  then obtain w1 st where
    b: "pollBatches E (clientVersion dp) (dp_profile dp) baseOIDs (cycleStart w1 dp) = Inr st"
    and r: "po_requests out = ps_requests st"
    unfolding oids by blast
  from pollBatches_progress [OF b, of "set baseOIDs"]
  have sub: "\<forall>batch \<in> set (ps_requests st). set batch \<subseteq> set baseOIDs"
    by (simp add: pollProgress_def cycleStart_def)
  from pollBatches_cover [OF b]
  have sup: "set baseOIDs \<subseteq> \<Union> (set ` set (ps_requests st))" .
  from sub sup have "\<Union> (set ` set (ps_requests st)) = set baseOIDs"
    by blast
  moreover from sup have "ps_requests st \<noteq> []"
    by (auto simp: baseOIDs_def)
  moreover have "clientVersion dp \<noteq> Version1 \<longrightarrow> ps_requests st = [baseOIDs]"
  proof
    assume v: "clientVersion dp \<noteq> Version1"
    from pollBatches_single [OF v _ _ b] show "ps_requests st = [baseOIDs]"
      by (simp add: baseOIDs_def cycleStart_def)
  qed
  ultimately show ?thesis
    using out r by (auto simp: baseOIDs_def)
qed

lemma returned_Inr: "r = Inr x \<Longrightarrow> returned r = Some x"
  by (simp add: returned_def)

lemma wellTypedEnv_agents:
  "wellTypedEnv (agentEnv healthyAgent)" "wellTypedEnv (agentEnv bareAgent)"
  by (auto simp: wellTypedEnv_def agentEnv_def list_all_iff wellTyped_def healthyAgent_def
        bareAgent_def)

lemma rangeYieldsKeys_agent: "rangeYieldsKeys (agentEnv agent)"
  by (simp add: rangeYieldsKeys_def agentEnv_def)

theorem doPoll_base_poll_witness:
  "wellTypedEnv (agentEnv healthyAgent)
   \<and> indexesValid (dp_profile (pollerOf upsDevice (Some staticProfile)))
   \<and> rangeYieldsKeys (agentEnv healthyAgent)
   \<and> fst (env_Connect (agentEnv healthyAgent) ()) = None
   \<and> list_all (\<lambda>m. Suc (dp_pollCount (pollerOf upsDevice (Some staticProfile))) mod pollInterval m \<noteq> 0)
        (OIDMappings staticProfile)
   \<and> map_option po_requests
        (returned (doPoll (agentEnv healthyAgent) (pollerOf upsDevice (Some staticProfile)) ()
                     emptyService))
       = Some [[''.1.3.6.1.2.1.1.1.0'', ''.1.3.6.1.2.1.1.3.0'']]"
proof -
  have h2: "indexesValid (dp_profile (pollerOf upsDevice (Some staticProfile)))"
    by (simp add: indexesValid_def pollerOf_def staticProfile_def modelMapping_def)
  have h4: "dp_connected (pollerOf upsDevice (Some staticProfile))
            \<or> fst (env_Connect (agentEnv healthyAgent) ()) = None"
    by (simp add: agentEnv_def)
  have due: "list_all (\<lambda>m. Suc (dp_pollCount (pollerOf upsDevice (Some staticProfile)))
                            mod pollInterval m \<noteq> 0) (OIDMappings staticProfile)"
    by (simp add: staticProfile_def pollerOf_def pollInterval_static modelMapping_def)
  then have h5: "dp_profile (pollerOf upsDevice (Some staticProfile)) = None
         \<or> (\<exists>p. dp_profile (pollerOf upsDevice (Some staticProfile)) = Some p
                \<and> (\<forall>m \<in> set (OIDMappings p).
                      Suc (dp_pollCount (pollerOf upsDevice (Some staticProfile))) mod pollInterval m \<noteq> 0
                      \<or> normalizeOID (OID m)
                          \<in> dp_missingOIDs (pollerOf upsDevice (Some staticProfile))))"
    by (simp add: pollerOf_def list_all_iff)
  have v: "clientVersion (pollerOf upsDevice (Some staticProfile)) \<noteq> Version1"
    by (simp add: clientVersion_def pollerOf_def upsDevice_def snmpVersionToGoSNMP_def
          SNMPv1_def SNMPv2c_def SNMPv3_def)
  from doPoll_base_poll [OF wellTypedEnv_agents(1) h2 rangeYieldsKeys_agent h4 h5, of emptyService] v
  obtain out where
    "doPoll (agentEnv healthyAgent) (pollerOf upsDevice (Some staticProfile)) () emptyService
       = Inr out"
    "po_requests out = [[''.1.3.6.1.2.1.1.1.0'', ''.1.3.6.1.2.1.1.3.0'']]"
    by blast
  then have "map_option po_requests
        (returned (doPoll (agentEnv healthyAgent) (pollerOf upsDevice (Some staticProfile)) ()
                     emptyService))
       = Some [[''.1.3.6.1.2.1.1.1.0'', ''.1.3.6.1.2.1.1.3.0'']]"
    by (simp add: returned_def)
  with wellTypedEnv_agents(1) h2 rangeYieldsKeys_agent due show ?thesis
    by (simp add: agentEnv_def)
qed

section \<open>Missing OIDs\<close>

lemma pollOIDs_missing:
  assumes "rangeYieldsKeys E" and "x \<in> set (pollOIDs E dp)"
    and "normalizeOID x \<in> dp_missingOIDs dp"
  shows "pollOIDs E dp = baseOIDs"
proof (cases "getOIDsToPoll E dp = []")
  case True
  then show ?thesis by (simp add: pollOIDs_def)
next
  case False
  with assms(2) have "x \<in> set (getOIDsToPoll E dp)"
    by (simp add: pollOIDs_def)
  from getOIDsToPoll_due [OF assms(1) this] assms(3) show ?thesis
    by auto
qed

lemma doPoll_missing_requests:
  assumes "rangeYieldsKeys E" and "doPoll E dp w s = Inr out"
    and "batch \<in> set (po_requests out)" and "x \<in> set batch"
    and "normalizeOID x \<in> dp_missingOIDs dp"
  shows "x \<in> set baseOIDs \<and> (\<forall>b \<in> set (po_requests out). set b \<subseteq> set baseOIDs)"
proof -
  from doPoll_requests_subset [OF assms(2,3)] assms(4)
  have x: "x \<in> set (pollOIDs E (counted dp))" by blast
  have "normalizeOID x \<in> dp_missingOIDs (counted dp)"
    using assms(5) by (simp add: counted_def)
  from pollOIDs_missing [OF assms(1) x this]
  have base: "pollOIDs E (counted dp) = baseOIDs" .
  with x doPoll_requests_subset [OF assms(2)] show ?thesis
    by auto
qed

lemma pollCycles_later:
  assumes "list_all rangeYieldsKeys Es"
  shows "pollCycles Es dp w s = Inr outs \<Longrightarrow> k < length outs
         \<Longrightarrow> normalizeOID x \<in> dp_missingOIDs dp
         \<Longrightarrow> batch \<in> set (po_requests (outs ! k)) \<Longrightarrow> x \<in> set batch
         \<Longrightarrow> x \<in> set baseOIDs \<and> (\<forall>b \<in> set (po_requests (outs ! k)). set b \<subseteq> set baseOIDs)"
  using assms
proof (induction Es arbitrary: dp w s outs k)
  case Nil
  then show ?case by simp
next
  case (Cons E Es)
  from Cons.prems(1) obtain out outs' where
    d: "doPoll E dp w s = Inr out"
    and r: "pollCycles Es (po_poller out) (po_world out) (po_service out) = Inr outs'"
    and outs: "outs = out # outs'"
    by (auto split: sum.splits)
  from Cons.prems(6) have E: "rangeYieldsKeys E" and Es: "list_all rangeYieldsKeys Es"
    by simp_all
  show ?case
  proof (cases k)
    case 0
    with Cons.prems(4) outs have "batch \<in> set (po_requests out)" by simp
    from doPoll_missing_requests [OF E d this Cons.prems(5,3)] 0 outs show ?thesis
      by simp
  next
    case (Suc k')
    from doPoll_missing_mono [OF d] Cons.prems(3)
    have m: "normalizeOID x \<in> dp_missingOIDs (po_poller out)" by blast
    from Suc Cons.prems(2,4) outs have "k' < length outs'"
      "batch \<in> set (po_requests (outs' ! k'))"
      by simp_all
    from Cons.IH [OF r this(1) m this(2) Cons.prems(5) Es] Suc outs show ?thesis
      by simp
  qed
qed

text \<open>
  The path through the profile does skip the missing OIDs. In successive poll cycles of
  one poller, once a normalized OID is in the set of missing OIDs after cycle \<open>i\<close>, a
  later cycle \<open>j\<close> asks for an OID that normalizes to it only when cycle \<open>j\<close> is the base
  poll: the OID is \<^verbatim>\<open>sysDescr\<close> or \<^verbatim>\<open>sysUpTime\<close> and every \<^verbatim>\<open>Get\<close> of cycle \<open>j\<close> asks for base
  OIDs only. The set is empty again in a poller that \<^verbatim>\<open>AddDevice\<close> makes.
\<close>

lemma missing_OIDs_requested_only_by_base_poll:
  assumes "list_all rangeYieldsKeys Es"
    and "pollCycles Es dp w s = Inr outs"
    and "i < j" and "j < length outs"
    and "normalizeOID x \<in> dp_missingOIDs (po_poller (outs ! i))"
    and "batch \<in> set (po_requests (outs ! j))" and "x \<in> set batch"
  shows "x \<in> set baseOIDs \<and> (\<forall>b \<in> set (po_requests (outs ! j)). set b \<subseteq> set baseOIDs)"
  using assms
proof (induction Es arbitrary: dp w s outs i j)
  case Nil
  then show ?case by simp
next
  case (Cons E Es)
  from Cons.prems(2) obtain out outs' where
    d: "doPoll E dp w s = Inr out"
    and r: "pollCycles Es (po_poller out) (po_world out) (po_service out) = Inr outs'"
    and outs: "outs = out # outs'"
    by (auto split: sum.splits)
  from Cons.prems(1) have Es: "list_all rangeYieldsKeys Es" by simp
  from Cons.prems(3) obtain j' where j: "j = Suc j'" by (cases j) auto
  with Cons.prems(4,6) outs have j': "j' < length outs'"
    and b: "batch \<in> set (po_requests (outs' ! j'))"
    by simp_all
  show ?case
  proof (cases i)
    case 0
    with Cons.prems(5) outs have "normalizeOID x \<in> dp_missingOIDs (po_poller out)"
      by simp
    from pollCycles_later [OF Es r j' this b Cons.prems(7)] j outs show ?thesis
      by simp
  next
    case (Suc i')
    with Cons.prems(3,5) j outs have "i' < j'"
      "normalizeOID x \<in> dp_missingOIDs (po_poller (outs' ! i'))"
      by simp_all
    from Cons.IH [OF Es r this(1) j' this(2) b Cons.prems(7)] j outs show ?thesis
      by simp
  qed
qed

lemma AddDevice_fresh:
  "AddDevice profileRepo device s = (s', Some dp)
     \<Longrightarrow> dp_missingOIDs dp = {} \<and> dp_pollCount dp = 0"
  by (auto simp: AddDevice_def Let_def split: if_splits)

text \<open>
  C3, on the code. A device without profile whose agent answers \<^verbatim>\<open>noSuchObject\<close> for
  \<^verbatim>\<open>sysDescr\<close>: the first cycle puts the normalized OID into the set of missing OIDs
  (\<^verbatim>\<open>track them to skip in future polls\<close>), and the second cycle, of the same poller, asks
  for the OID again in its one \<^verbatim>\<open>Get\<close>: \<^verbatim>\<open>doPoll\<close> takes the base OIDs without comparing
  them with the set, which \<^verbatim>\<open>getOIDsToPoll\<close> does for the OIDs of a profile.
\<close>

theorem base_poll_requests_missing_OID_again:
  "snd (AddDevice noProfiles upsDevice emptyService) = Some (pollerOf upsDevice None)
   \<and> map_option cycleRequests
        (returned (pollCycles [agentEnv bareAgent, agentEnv bareAgent]
                     (pollerOf upsDevice None) () addedService))
       = Some [[[''.1.3.6.1.2.1.1.1.0'', ''.1.3.6.1.2.1.1.3.0'']],
               [[''.1.3.6.1.2.1.1.1.0'', ''.1.3.6.1.2.1.1.3.0'']]]
   \<and> map_option (knownMissing ''1.3.6.1.2.1.1.1.0'')
        (returned (pollCycles [agentEnv bareAgent, agentEnv bareAgent]
                     (pollerOf upsDevice None) () addedService))
       = Some [True, True]
   \<and> normalizeOID ''.1.3.6.1.2.1.1.1.0'' = ''1.3.6.1.2.1.1.1.0''"
  by code_simp

lemma returned_Some: "returned r = Some x \<longleftrightarrow> r = Inr x"
  by (cases r) (simp_all add: returned_def)

lemma missing_OIDs_requested_only_by_base_poll_example:
  "list_all rangeYieldsKeys [agentEnv bareAgent, agentEnv bareAgent]
   \<and> (\<exists>outs. pollCycles [agentEnv bareAgent, agentEnv bareAgent]
                 (pollerOf upsDevice None) () addedService = Inr outs
          \<and> length outs = 2
          \<and> normalizeOID ''.1.3.6.1.2.1.1.1.0'' \<in> dp_missingOIDs (po_poller (outs ! 0))
          \<and> [''.1.3.6.1.2.1.1.1.0'', ''.1.3.6.1.2.1.1.3.0''] \<in> set (po_requests (outs ! 1))
          \<and> ''.1.3.6.1.2.1.1.1.0'' \<in> set baseOIDs
          \<and> list_all (\<lambda>b. set b \<subseteq> set baseOIDs) (po_requests (outs ! 1)))"
proof -
  have keys: "list_all rangeYieldsKeys [agentEnv bareAgent, agentEnv bareAgent]"
    by (simp add: rangeYieldsKeys_agent)
  have "map_option cycleRequests
        (returned (pollCycles [agentEnv bareAgent, agentEnv bareAgent]
                     (pollerOf upsDevice None) () addedService))
       = Some [[[''.1.3.6.1.2.1.1.1.0'', ''.1.3.6.1.2.1.1.3.0'']],
               [[''.1.3.6.1.2.1.1.1.0'', ''.1.3.6.1.2.1.1.3.0'']]]"
    and "map_option (knownMissing ''1.3.6.1.2.1.1.1.0'')
        (returned (pollCycles [agentEnv bareAgent, agentEnv bareAgent]
                     (pollerOf upsDevice None) () addedService))
       = Some [True, True]"
    by code_simp+
  then obtain outs where
    run: "pollCycles [agentEnv bareAgent, agentEnv bareAgent]
            (pollerOf upsDevice None) () addedService = Inr outs"
    and req: "cycleRequests outs = [[[''.1.3.6.1.2.1.1.1.0'', ''.1.3.6.1.2.1.1.3.0'']],
               [[''.1.3.6.1.2.1.1.1.0'', ''.1.3.6.1.2.1.1.3.0'']]]"
    and mis: "knownMissing ''1.3.6.1.2.1.1.1.0'' outs = [True, True]"
    by (cases "pollCycles [agentEnv bareAgent, agentEnv bareAgent]
                 (pollerOf upsDevice None) () addedService")
       (simp_all add: returned_def)
  from req have "length (cycleRequests outs) = 2" by simp
  then have len: "length outs = 2" by (simp add: cycleRequests_def)
  have "cycleRequests outs ! 1 = po_requests (outs ! 1)"
    using len by (simp add: cycleRequests_def)
  with req have r1: "po_requests (outs ! 1) = [[''.1.3.6.1.2.1.1.1.0'', ''.1.3.6.1.2.1.1.3.0'']]"
    by simp
  have "knownMissing ''1.3.6.1.2.1.1.1.0'' outs ! 0
          = (''1.3.6.1.2.1.1.1.0'' \<in> dp_missingOIDs (po_poller (outs ! 0)))"
    using len by (simp add: knownMissing_def)
  with mis have m0: "''1.3.6.1.2.1.1.1.0'' \<in> dp_missingOIDs (po_poller (outs ! 0))"
    by simp
  have n: "normalizeOID ''.1.3.6.1.2.1.1.1.0'' = ''1.3.6.1.2.1.1.1.0''"
    by (simp add: normalizeOID_def)
  have "[''.1.3.6.1.2.1.1.1.0'', ''.1.3.6.1.2.1.1.3.0''] \<in> set (po_requests (outs ! 1))"
    using r1 by simp
  from missing_OIDs_requested_only_by_base_poll
         [OF keys run _ _ _ this, of 0 "''.1.3.6.1.2.1.1.1.0''"] len m0 n
  have "''.1.3.6.1.2.1.1.1.0'' \<in> set baseOIDs
        \<and> (\<forall>b \<in> set (po_requests (outs ! 1)). set b \<subseteq> set baseOIDs)"
    by simp
  with keys run len m0 n r1 show ?thesis
    by (auto simp: list_all_iff)
qed

text \<open>
  With a profile, the OID learnt to be missing in the first cycle is left out of the
  second.
\<close>

lemma missing_OID_learning_example:
  "map_option cycleRequests
     (returned (pollCycles [agentEnv healthyAgent, agentEnv healthyAgent]
                  (pollerOf pduDevice (Some mixedProfile)) () emptyService))
     = Some [[[''1.3.6.1.2.1.33.1.2.1.0'', ''1.3.6.1.4.1.17420.1.2.9.1.13.0'']],
             [[''1.3.6.1.4.1.17420.1.2.9.1.13.0'']]]"
  by code_simp

section \<open>Composite values in a poll cycle\<close>








end
